theory Spec2Isabelle
  imports Main
begin

section \<open>CameraMotionWarmer: the warming scheduler of src/app/utils/CameraMotionWarmer.js\<close>

text \<open>
  The class is embedded as a record of its fields, and the page it lives in (the pending
  timeouts, the promises of running warm calls, the calls it makes to hooks and to the
  network) as an extension of that record. Every method is a function from the state to
  the new state. \<open>Date.now()\<close> is an argument: one reading for each synchronous block,
  in integer milliseconds. \<open>console.info\<close> is left out: it has no effect on the state.

  An \<open>async\<close> method runs synchronously up to its first \<open>await\<close>; what is
  left of it is a continuation, resumed when the awaited promise settles. Other methods
  of the object may run between two such blocks.
\<close>

subsection \<open>Values\<close>

type_synonym time = int

text \<open>
  A thrown JavaScript value: an \<open>Error\<close> with its message. Durations and times are
  integers: \<open>NaN\<close> and fractions of a millisecond are outside the model.
\<close>

datatype exn = Error string

text \<open>
  A callback hook either returns (\<open>None\<close>) or throws (\<open>Some e\<close>); what it
  returns is never read. Hooks are taken not to call back into the warmer.
\<close>

type_synonym hook0 = "unit \<Rightarrow> exn option"
type_synonym hook1 = "exn \<Rightarrow> exn option"

record config =
  cooldownPeriod :: int
  onWarmingStart :: hook0
  onWarmingComplete :: hook0
  onWarmingError :: hook1

text \<open>
  The object literal given to the constructor or to \<open>updateConfig\<close>: a property is
  absent (\<open>None\<close>, read as \<open>undefined\<close>) or present.
\<close>

record options =
  opt_cooldownPeriod :: "int option"
  opt_onWarmingStart :: "hook0 option"
  opt_onWarmingComplete :: "hook0 option"
  opt_onWarmingError :: "hook1 option"

text \<open>The JSON of a prediction, as both endpoints return it.\<close>

record prediction =
  predictionId :: string
  status :: string
  logs :: "string list option"
  error :: "string option"

text \<open>What the code reads of a \<open>fetch\<close> response.\<close>

record response =
  resp_ok :: bool
  resp_status :: nat

text \<open>What the object does to the world outside it, in order.\<close>

datatype effect =
    Hook_start
  | Hook_complete
  | Hook_error exn
  | Post_warm string string
  | Get_status string
  | Unhandled_rejection exn

text \<open>
  The suspension points of \<open>warmReplicateAPI\<close>, with the local variable
  \<open>prediction\<close> where it is live: lines 109, 125, 137, 140 and 142.
\<close>

datatype continuation =
    Await_create
  | Await_create_json
  | Await_delay prediction
  | Await_status prediction
  | Await_status_json prediction

text \<open>
  How an awaited promise settles. A body that is no prediction object makes line 128
  throw inside the \<open>try\<close>: for the state that is a rejection at the same \<open>await\<close>.
\<close>

datatype settled =
    Resolved_response response
  | Resolved_json prediction
  | Resolved_delay
  | Rejected_with exn

text \<open>The promise an \<open>async\<close> call returns: still pending, fulfilled or rejected.\<close>

datatype progress = Suspended continuation | Fulfilled | Rejected exn

text \<open>The outcome of one synchronous block of the \<open>try\<close> body.\<close>

datatype body_result = Thrown exn | Done | Awaiting continuation

subsection \<open>State\<close>

record warmer =
  isWarming :: bool
  lastWarmingTime :: time
  lastSuccessfulWarmingTime :: time
  warmingTimer :: "nat option"
  config :: config

text \<open>
  The page: \<open>timeouts\<close> are the outstanding \<open>setTimeout\<close> calls of
  \<open>triggerWarmCall\<close> (handle and delay), \<open>nextTimerId\<close> the next handle
  (handles are positive, hence truthy), \<open>dummyImage\<close> what \<open>createDummyImage\<close>
  yields in this document (a data URI, or a throw where the canvas is missing),
  \<open>inflight\<close> the suspended warm calls and \<open>effects\<close> the calls made so far.
\<close>

record page = warmer +
  timeouts :: "(nat \<times> int) list"
  nextTimerId :: nat
  dummyImage :: "exn + string"
  inflight :: "continuation list"
  effects :: "effect list"

subsection \<open>Helpers of the embedding\<close>

text \<open>The decimal digits of a number, as a template literal prints it.\<close>

fun decimal :: "nat \<Rightarrow> string" where
  "decimal n =
     (if n < 10 then [''0123456789'' ! n]
      else decimal (n div 10) @ [''0123456789'' ! (n mod 10)])"

declare decimal.simps [simp del]

definition emit :: "effect \<Rightarrow> page \<Rightarrow> page" where
  "emit e w = w\<lparr>effects := effects w @ [e]\<rparr>"

definition setTimeout' :: "int \<Rightarrow> page \<Rightarrow> nat \<times> page" where
  "setTimeout' delay w =
     (nextTimerId w,
      w\<lparr>timeouts := timeouts w @ [(nextTimerId w, delay)],
        nextTimerId := Suc (nextTimerId w)\<rparr>)"

definition clearTimeout' :: "nat \<Rightarrow> page \<Rightarrow> page" where
  "clearTimeout' h w = w\<lparr>timeouts := filter (\<lambda>t. fst t \<noteq> h) (timeouts w)\<rparr>"

text \<open>A caller that drops the promise of an \<open>async\<close> call.\<close>

fun spawn :: "progress \<times> page \<Rightarrow> page" where
  "spawn (Suspended k, w) = w\<lparr>inflight := inflight w @ [k]\<rparr>"
| "spawn (Fulfilled, w) = w"
| "spawn (Rejected e, w) = emit (Unhandled_rejection e) w"

subsection \<open>The constructor (lines 6-23)\<close>

definition no_hook0 :: hook0 where
  "no_hook0 = (\<lambda>_. None)"

definition no_hook1 :: hook1 where
  "no_hook1 = (\<lambda>_. None)"

text \<open>\<open>a || b\<close> on a number that may be absent: \<open>undefined\<close> and \<open>0\<close> are falsy.\<close>

definition or_number :: "int option \<Rightarrow> int \<Rightarrow> int" where
  "or_number a b = (case a of None \<Rightarrow> b | Some n \<Rightarrow> if n = 0 then b else n)"

text \<open>\<open>a || b\<close> on a function that may be absent: a function is truthy.\<close>

definition or_function :: "'f option \<Rightarrow> 'f \<Rightarrow> 'f" where
  "or_function a b = (case a of None \<Rightarrow> b | Some f \<Rightarrow> f)"

definition constructor :: "options \<Rightarrow> warmer" where
  "constructor opts =
     \<lparr>isWarming = False,
      lastWarmingTime = 0,
      lastSuccessfulWarmingTime = 0,
      warmingTimer = None,
      config =
        \<lparr>cooldownPeriod = or_number (opt_cooldownPeriod opts) 10000,
         onWarmingStart = or_function (opt_onWarmingStart opts) no_hook0,
         onWarmingComplete = or_function (opt_onWarmingComplete opts) no_hook0,
         onWarmingError = or_function (opt_onWarmingError opts) no_hook1\<rparr>\<rparr>"

text \<open>A fresh page holding a newly constructed warmer.\<close>

definition new_page :: "options \<Rightarrow> exn + string \<Rightarrow> page" where
  "new_page opts img =
     warmer.extend (constructor opts)
       (page.fields [] 1 img [] [])"

subsection \<open>Timer and trigger (lines 30-78)\<close>

definition stopDetection :: "page \<Rightarrow> page" where
  "stopDetection w =
     (case warmingTimer w of
        Some h \<Rightarrow> (clearTimeout' h w)\<lparr>warmingTimer := None\<rparr>
      | None \<Rightarrow> w)"

text \<open>Lines 59-61: \<open>if (this.warmingTimer) clearTimeout(this.warmingTimer)\<close>.\<close>

definition clearPending :: "page \<Rightarrow> page" where
  "clearPending w = (case warmingTimer w of Some h \<Rightarrow> clearTimeout' h w | None \<Rightarrow> w)"

text \<open>Lines 64-66: the constant \<open>remainingCooldown\<close>.\<close>

definition remainingCooldown :: "time \<Rightarrow> 'a warmer_scheme \<Rightarrow> int" where
  "remainingCooldown now w =
     (let timeSinceLastSuccessfulWarming = now - lastSuccessfulWarmingTime w
      in max 0 (cooldownPeriod (config w) - timeSinceLastSuccessfulWarming))"

subsection \<open>The warm call (lines 94-169)\<close>

text \<open>Calling a hook inside the \<open>try\<close>: the call is recorded, and the hook returns or throws.\<close>

definition call_hook :: "effect \<Rightarrow> exn option \<Rightarrow> page \<Rightarrow> body_result \<times> page" where
  "call_hook ev r w = (case r of None \<Rightarrow> (Done, emit ev w) | Some e \<Rightarrow> (Thrown e, emit ev w))"

text \<open>Lines 161-165, the \<open>catch\<close> block. A throw of the hook leaves the block.\<close>

definition catch_block :: "time \<Rightarrow> exn \<Rightarrow> page \<Rightarrow> progress \<times> page" where
  "catch_block now e w =
     (let w1 = w\<lparr>lastWarmingTime := now\<rparr>;
          w2 = emit (Hook_error e) w1
      in case onWarmingError (config w1) e of
           None \<Rightarrow> (Fulfilled, w2)
         | Some e' \<Rightarrow> (Rejected e', w2))"

text \<open>Lines 166-168, the \<open>finally\<close> block.\<close>

definition finally_block :: "progress \<times> page \<Rightarrow> progress \<times> page" where
  "finally_block pw = (fst pw, (snd pw)\<lparr>isWarming := False\<rparr>)"

text \<open>
  The \<open>try\<close> statement around one synchronous block of its body: a throw runs
  \<open>catch\<close> then \<open>finally\<close>, a normal end or a \<open>return\<close> runs \<open>finally\<close>, and an
  \<open>await\<close> suspends inside the \<open>try\<close>.
\<close>

definition try_catch_finally :: "time \<Rightarrow> body_result \<times> page \<Rightarrow> progress \<times> page" where
  "try_catch_finally now bw =
     (case bw of
        (Thrown e, w) \<Rightarrow> finally_block (catch_block now e w)
      | (Done, w) \<Rightarrow> finally_block (Fulfilled, w)
      | (Awaiting k, w) \<Rightarrow> (Suspended k, w))"

text \<open>Lines 105-118: the dummy image and the creation request.\<close>

definition create_request :: "page \<Rightarrow> body_result \<times> page" where
  "create_request w =
     (case dummyImage w of
        Inl e \<Rightarrow> (Thrown e, w)
      | Inr dummy \<Rightarrow> (Awaiting Await_create, emit (Post_warm dummy ''/gifs/thumbs_up.gif'') w))"

text \<open>\<open>finalPrediction.error || 'Unknown error'\<close>: absent and empty are falsy.\<close>

definition error_or_unknown :: "prediction \<Rightarrow> string" where
  "error_or_unknown p =
     (case error p of None \<Rightarrow> ''Unknown error''
      | Some m \<Rightarrow> if m = [] then ''Unknown error'' else m)"

text \<open>Lines 148-159: after the loop.\<close>

definition after_loop :: "time \<Rightarrow> prediction \<Rightarrow> page \<Rightarrow> body_result \<times> page" where
  "after_loop now finalPrediction w =
     (let w1 = w\<lparr>lastWarmingTime := now\<rparr>
      in if status finalPrediction = ''succeeded''
         then let w2 = w1\<lparr>lastSuccessfulWarmingTime := now\<rparr>
              in call_hook Hook_complete (onWarmingComplete (config w2) ()) w2
         else let err = Error (''Warming prediction failed: '' @ error_or_unknown finalPrediction)
              in call_hook (Hook_error err) (onWarmingError (config w1) err) w1)"

text \<open>Line 135: the test of the \<open>while\<close> loop, and what follows either way.\<close>

definition poll_loop :: "time \<Rightarrow> prediction \<Rightarrow> prediction \<Rightarrow> page \<Rightarrow> body_result \<times> page" where
  "poll_loop now prediction0 finalPrediction w =
     (if status finalPrediction \<noteq> ''succeeded'' \<and> status finalPrediction \<noteq> ''failed''
      then (Awaiting (Await_delay prediction0), w)
      else after_loop now finalPrediction w)"

text \<open>
  The body of the \<open>try\<close> from each \<open>await\<close> on. A rejected promise throws at the
  \<open>await\<close>. The last equation is a settlement that is not the awaited one: nothing runs.
\<close>

fun resume_body :: "time \<Rightarrow> continuation \<Rightarrow> settled \<Rightarrow> page \<Rightarrow> body_result \<times> page" where
  "resume_body now Await_create (Resolved_response r) w =
     (if \<not> resp_ok r
      then let err = Error (''Warming failed: '' @ decimal (resp_status r))
           in call_hook (Hook_error err) (onWarmingError (config w) err) w
      else (Awaiting Await_create_json, w))"
| "resume_body now Await_create (Rejected_with e) w = (Thrown e, w)"
| "resume_body now Await_create_json (Resolved_json p) w = poll_loop now p p w"
| "resume_body now Await_create_json (Rejected_with e) w = (Thrown e, w)"
| "resume_body now (Await_delay p) Resolved_delay w =
     (Awaiting (Await_status p), emit (Get_status (predictionId p)) w)"
| "resume_body now (Await_status p) (Resolved_response r) w =
     (if resp_ok r then (Awaiting (Await_status_json p), w)
      else (Thrown (Error ''Failed to check warming prediction status''), w))"
| "resume_body now (Await_status p) (Rejected_with e) w = (Thrown e, w)"
| "resume_body now (Await_status_json p) (Resolved_json q) w = poll_loop now p q w"
| "resume_body now (Await_status_json p) (Rejected_with e) w = (Thrown e, w)"
| "resume_body now k s w = (Awaiting k, w)"

definition resume :: "time \<Rightarrow> continuation \<Rightarrow> settled \<Rightarrow> page \<Rightarrow> progress \<times> page" where
  "resume now k s w = try_catch_finally now (resume_body now k s w)"

text \<open>
  The call itself, up to its first \<open>await\<close>. The guard and the start hook are outside
  the \<open>try\<close>: a throw of \<open>onWarmingStart\<close> rejects the promise at once.
\<close>

definition warmReplicateAPI :: "time \<Rightarrow> page \<Rightarrow> progress \<times> page" where
  "warmReplicateAPI now w =
     (if isWarming w then (Fulfilled, w)
      else let w1 = w\<lparr>isWarming := True\<rparr>;
               w2 = emit Hook_start w1
           in case onWarmingStart (config w1) () of
                Some e \<Rightarrow> (Rejected e, w2)
              | None \<Rightarrow> try_catch_finally now (create_request w2))"

text \<open>
  One whole cycle against a script of settlements, each with the time at which it
  arrives and with no other method running in between. A script that ends too early
  leaves the call suspended: the loop has no bound of its own.
\<close>

fun run_cycle :: "(time \<times> settled) list \<Rightarrow> progress \<times> page \<Rightarrow> progress \<times> page" where
  "run_cycle ((t, s) # script) (Suspended k, w) = run_cycle script (resume t k s w)"
| "run_cycle script pw = pw"

subsection \<open>The trigger (lines 51-78) and the timer callback (lines 70-73)\<close>

definition triggerWarmCall :: "time \<Rightarrow> page \<Rightarrow> page" where
  "triggerWarmCall now w =
     (if isWarming w then w
      else let w1 = clearPending w;
               remaining = remainingCooldown now w1
           in if remaining > 0
              then (case setTimeout' remaining w1 of
                      (h, w2) \<Rightarrow> w2\<lparr>warmingTimer := Some h\<rparr>)
              else spawn (warmReplicateAPI now w1))"

definition handleUserInteraction :: "time \<Rightarrow> page \<Rightarrow> page" where
  "handleUserInteraction now w = triggerWarmCall now w"

text \<open>An outstanding timeout fires: it leaves the list and its callback runs.\<close>

definition timer_fires :: "time \<Rightarrow> nat \<Rightarrow> page \<Rightarrow> page" where
  "timer_fires now h w =
     (if h \<in> fst ` set (timeouts w)
      then (spawn (warmReplicateAPI now (clearTimeout' h w)))\<lparr>warmingTimer := None\<rparr>
      else w)"

subsection \<open>Status, freeze, reset, configuration (lines 84-89 and 198-239)\<close>

definition shouldWarmAPI :: "time \<Rightarrow> 'a warmer_scheme \<Rightarrow> bool" where
  "shouldWarmAPI now w =
     (let timeSinceLastSuccessfulWarming = now - lastSuccessfulWarmingTime w
      in \<not> isWarming w \<and> timeSinceLastSuccessfulWarming > cooldownPeriod (config w))"

definition freezeWarming :: "'a warmer_scheme \<Rightarrow> 'a warmer_scheme" where
  "freezeWarming w = w\<lparr>isWarming := True\<rparr>"

definition resetWarmingCooldown :: "time \<Rightarrow> 'a warmer_scheme \<Rightarrow> 'a warmer_scheme" where
  "resetWarmingCooldown now w = w\<lparr>isWarming := False, lastSuccessfulWarmingTime := now\<rparr>"

text \<open>\<open>{ ...this.config, ...newConfig }\<close>: a property that is present wins.\<close>

definition updateConfig :: "options \<Rightarrow> 'a warmer_scheme \<Rightarrow> 'a warmer_scheme" where
  "updateConfig newConfig w =
     w\<lparr>config :=
        \<lparr>cooldownPeriod =
           (case opt_cooldownPeriod newConfig of Some c \<Rightarrow> c | None \<Rightarrow> cooldownPeriod (config w)),
         onWarmingStart =
           (case opt_onWarmingStart newConfig of Some f \<Rightarrow> f | None \<Rightarrow> onWarmingStart (config w)),
         onWarmingComplete =
           (case opt_onWarmingComplete newConfig of Some f \<Rightarrow> f
            | None \<Rightarrow> onWarmingComplete (config w)),
         onWarmingError =
           (case opt_onWarmingError newConfig of Some f \<Rightarrow> f
            | None \<Rightarrow> onWarmingError (config w))\<rparr>\<rparr>"

record status_report =
  st_isWarming :: bool
  st_lastWarmingTime :: time
  st_timeSinceLastWarming :: int
  st_timeSinceLastSuccessfulWarming :: int
  st_canWarm :: bool

definition getStatus :: "time \<Rightarrow> 'a warmer_scheme \<Rightarrow> status_report" where
  "getStatus now w =
     \<lparr>st_isWarming = isWarming w,
      st_lastWarmingTime = lastWarmingTime w,
      st_timeSinceLastWarming = now - lastWarmingTime w,
      st_timeSinceLastSuccessfulWarming = now - lastSuccessfulWarmingTime w,
      st_canWarm = shouldWarmAPI now w\<rparr>"

definition destroy :: "page \<Rightarrow> page" where
  "destroy w = stopDetection w"

subsection \<open>The page as an event loop\<close>

text \<open>
  Everything that can happen to the object: a method is called, an outstanding timeout
  fires, or the promise awaited by the \<open>i\<close>-th suspended warm call settles.
\<close>

datatype event =
    Interaction
  | Timer_fires nat
  | Settles nat settled
  | Freeze
  | Reset
  | Update options
  | Destroy

fun step :: "page \<Rightarrow> time \<times> event \<Rightarrow> page" where
  "step w (now, Interaction) = handleUserInteraction now w"
| "step w (now, Timer_fires h) = timer_fires now h w"
| "step w (now, Settles i s) =
     (if i < length (inflight w)
      then spawn (resume now (inflight w ! i) s
                    (w\<lparr>inflight := take i (inflight w) @ drop (Suc i) (inflight w)\<rparr>))
      else w)"
| "step w (now, Freeze) = freezeWarming w"
| "step w (now, Reset) = resetWarmingCooldown now w"
| "step w (now, Update newConfig) = updateConfig newConfig w"
| "step w (now, Destroy) = destroy w"

definition run_events :: "(time \<times> event) list \<Rightarrow> page \<Rightarrow> page" where
  "run_events evs w = foldl step w evs"

text \<open>
  The invariant of the timer: at most one timeout is outstanding, it is the one
  \<open>warmingTimer\<close> holds, and handles already given out are below the next one.
\<close>

definition timer_invariant :: "page \<Rightarrow> bool" where
  "timer_invariant w =
     (length (timeouts w) \<le> 1 \<and>
      (\<forall>t \<in> set (timeouts w). warmingTimer w = Some (fst t)) \<and>
      (\<forall>h. warmingTimer w = Some h \<longrightarrow> h < nextTimerId w))"

text \<open>The part of the page that only timers touch.\<close>

definition timers_of :: "page \<Rightarrow> (nat \<times> int) list \<times> nat option \<times> nat" where
  "timers_of w = (timeouts w, warmingTimer w, nextTimerId w)"

subsection \<open>Sample data\<close>

text \<open>\<open>new CameraMotionWarmer()\<close>: no option given.\<close>

definition no_options :: options where
  "no_options = \<lparr>opt_cooldownPeriod = None, opt_onWarmingStart = None,
     opt_onWarmingComplete = None, opt_onWarmingError = None\<rparr>"

definition throwing_hook0 :: hook0 where
  "throwing_hook0 = (\<lambda>_. Some (Error ''hook failed''))"

definition throwing_hook1 :: hook1 where
  "throwing_hook1 = (\<lambda>_. Some (Error ''hook failed''))"

definition sample_image :: "exn + string" where
  "sample_image = Inr ''data:image/jpeg;base64,AAAA''"

definition response_200 :: response where
  "response_200 = \<lparr>resp_ok = True, resp_status = 200\<rparr>"

definition response_500 :: response where
  "response_500 = \<lparr>resp_ok = False, resp_status = 500\<rparr>"

definition prediction_with :: "string \<Rightarrow> string option \<Rightarrow> prediction" where
  "prediction_with st err = \<lparr>predictionId = ''p1'', status = st, logs = None, error = err\<rparr>"

text \<open>Options whose error hook, or whose completion hook, throws.\<close>

definition error_hook_throws :: options where
  "error_hook_throws = no_options\<lparr>opt_onWarmingError := Some throwing_hook1\<rparr>"

definition complete_hook_throws :: options where
  "complete_hook_throws = no_options\<lparr>opt_onWarmingComplete := Some throwing_hook0\<rparr>"

text \<open>A creation that answers \<open>starting\<close>, then one poll that answers \<open>succeeded\<close>.\<close>

definition one_poll_script :: "(time \<times> settled) list" where
  "one_poll_script =
     [(20100, Resolved_response response_200),
      (20110, Resolved_json (prediction_with ''starting'' None)),
      (22110, Resolved_delay),
      (22200, Resolved_response response_200),
      (22210, Resolved_json (prediction_with ''succeeded'' None))]"

text \<open>A fresh page whose first warm call waits for the answer to its creation request.\<close>

definition suspended_page :: page where
  "suspended_page = snd (warmReplicateAPI 20000 (new_page no_options sample_image))"

text \<open>
  The script of a run of polls: for each, the two-second wait, a status response that
  is OK and the prediction it carries. A prediction is terminal when the loop of line 135
  stops on it.
\<close>

fun poll_script :: "(time \<times> prediction) list \<Rightarrow> (time \<times> settled) list" where
  "poll_script [] = []"
| "poll_script ((t, q) # polls) =
     (t, Resolved_delay) # (t, Resolved_response response_200) # (t, Resolved_json q) #
     poll_script polls"

definition terminal :: "prediction \<Rightarrow> bool" where
  "terminal q = (status q = ''succeeded'' \<or> status q = ''failed'')"

text \<open>Three interactions: 3, 5 and 11 seconds after the page was loaded.\<close>

definition three_triggers :: "(time \<times> event) list" where
  "three_triggers = [(3000, Interaction), (5000, Interaction), (11000, Interaction)]"

section \<open>Properties\<close>

lemmas eval_defs =
  new_page_def constructor_def no_options_def or_number_def or_function_def no_hook0_def
  no_hook1_def throwing_hook0_def throwing_hook1_def sample_image_def response_200_def
  response_500_def prediction_with_def warmer.defs page.defs
  warmReplicateAPI_def try_catch_finally_def create_request_def catch_block_def
  finally_block_def call_hook_def emit_def resume_def poll_loop_def after_loop_def
  error_or_unknown_def triggerWarmCall_def clearPending_def clearTimeout'_def setTimeout'_def
  remainingCooldown_def timer_fires_def freezeWarming_def resetWarmingCooldown_def
  shouldWarmAPI_def handleUserInteraction_def decimal.simps Let_def
  error_hook_throws_def complete_hook_throws_def suspended_page_def

subsection \<open>Every block of the warm call that ends it clears the flag\<close>

lemma emit_fields [simp]:
  "isWarming (emit e w) = isWarming w"
  "lastWarmingTime (emit e w) = lastWarmingTime w"
  "lastSuccessfulWarmingTime (emit e w) = lastSuccessfulWarmingTime w"
  "warmingTimer (emit e w) = warmingTimer w"
  "config (emit e w) = config w"
  "timeouts (emit e w) = timeouts w"
  "nextTimerId (emit e w) = nextTimerId w"
  "dummyImage (emit e w) = dummyImage w"
  "inflight (emit e w) = inflight w"
  "effects (emit e w) = effects w @ [e]"
  by (simp_all add: emit_def)

lemma call_hook_cases:
  "call_hook ev r w = (b, w') \<Longrightarrow> w' = emit ev w \<and> (b = Done \<and> r = None \<or> (\<exists>e. b = Thrown e \<and> r = Some e))"
  by (auto simp: call_hook_def split: option.splits)

lemma finally_block_flag: "\<not> isWarming (snd (finally_block pw))"
  by (simp add: finally_block_def)

lemma finally_block_fst: "fst (finally_block pw) = fst pw"
  by (simp add: finally_block_def)

lemma catch_block_not_suspended: "fst (catch_block now e w) \<noteq> Suspended k"
  by (auto simp: catch_block_def Let_def split: option.splits)

lemma try_catch_finally_ended:
  assumes "try_catch_finally now bw = (p, w')" and "\<forall>k. p \<noteq> Suspended k"
  shows "\<not> isWarming w'"
proof (cases bw)
  case (Pair b w)
  show ?thesis
  proof (cases b)
    case (Thrown e)
    with Pair assms(1) have "w' = snd (finally_block (catch_block now e w))"
      by (simp add: try_catch_finally_def)
    then show ?thesis by (simp add: finally_block_flag)
  next
    case Done
    with Pair assms(1) have "w' = snd (finally_block (Fulfilled, w))"
      by (simp add: try_catch_finally_def)
    then show ?thesis by (simp add: finally_block_flag)
  next
    case (Awaiting k)
    with Pair assms(1) have "p = Suspended k"
      by (simp add: try_catch_finally_def)
    with assms(2) show ?thesis by simp
  qed
qed

lemma resume_ended:
  "resume now k s w = (p, w') \<Longrightarrow> \<forall>k'. p \<noteq> Suspended k' \<Longrightarrow> \<not> isWarming w'"
  unfolding resume_def by (rule try_catch_finally_ended)

lemma run_cycle_ended:
  "run_cycle script (Suspended k, w) = (p, w') \<Longrightarrow> \<forall>k'. p \<noteq> Suspended k' \<Longrightarrow> \<not> isWarming w'"
proof (induction script arbitrary: k w)
  case Nil
  then show ?case by auto
next
  case (Cons a script)
  obtain t s where a: "a = (t, s)" by (cases a)
  obtain q v where r: "resume t k s w = (q, v)" by (cases "resume t k s w")
  show ?case
  proof (cases q)
    case (Suspended k2)
    with Cons.prems a r have "run_cycle script (Suspended k2, v) = (p, w')" by simp
    from Cons.IH[OF this Cons.prems(2)] show ?thesis .
  next
    case Fulfilled
    with Cons.prems a r have "w' = v" "p = q" by simp_all
    with r Cons.prems(2) show ?thesis by (auto dest: resume_ended)
  next
    case (Rejected e)
    with Cons.prems a r have "w' = v" "p = q" by simp_all
    with r Cons.prems(2) show ?thesis by (auto dest: resume_ended)
  qed
qed

lemma run_cycle_not_suspended:
  "\<forall>k. p \<noteq> Suspended k \<Longrightarrow> run_cycle script (p, w) = (p, w)"
  by (cases script; cases p) auto


subsection \<open>The loop ends at the first terminal poll, and not before\<close>

lemma poll_round_pending:
  assumes "\<not> terminal q"
  shows "run_cycle ((t, Resolved_delay) # (t, Resolved_response response_200) #
            (t, Resolved_json q) # script) (Suspended (Await_delay p), w) =
         run_cycle script (Suspended (Await_delay p), emit (Get_status (predictionId p)) w)"
  using assms
  by (simp add: resume_def try_catch_finally_def poll_loop_def terminal_def response_200_def)

lemma poll_round_terminal:
  assumes "terminal q"
  shows "\<exists>pr w'. run_cycle ((t, Resolved_delay) # (t, Resolved_response response_200) #
            (t, Resolved_json q) # script) (Suspended (Await_delay p), w) = (pr, w') \<and>
          (\<forall>k. pr \<noteq> Suspended k) \<and> \<not> isWarming w'"
proof -
  let ?v = "emit (Get_status (predictionId p)) w"
  obtain pr w' where r: "resume t (Await_status_json p) (Resolved_json q) ?v = (pr, w')"
    by (cases "resume t (Await_status_json p) (Resolved_json q) ?v")
  have "\<exists>b v'. poll_loop t p q ?v = (b, v') \<and> (\<forall>k. b \<noteq> Awaiting k)"
    using assms
    by (auto simp: poll_loop_def terminal_def after_loop_def call_hook_def Let_def
        split: option.splits)
  then obtain b v' where b: "poll_loop t p q ?v = (b, v')" "\<forall>k. b \<noteq> Awaiting k" by blast
  have n: "\<forall>k. pr \<noteq> Suspended k"
  proof (cases b)
    case (Thrown e)
    with r b(1) have "pr = fst (catch_block t e v')"
      by (simp add: resume_def try_catch_finally_def finally_block_def)
    then show ?thesis by (simp add: catch_block_not_suspended)
  next
    case Done
    with r b(1) show ?thesis by (simp add: resume_def try_catch_finally_def finally_block_def)
  next
    case (Awaiting k)
    with b(2) show ?thesis by simp
  qed
  from r n have f: "\<not> isWarming w'" by (rule resume_ended)
  have "run_cycle ((t, Resolved_delay) # (t, Resolved_response response_200) #
            (t, Resolved_json q) # script) (Suspended (Await_delay p), w) =
        run_cycle script (pr, w')"
    using r by (simp add: resume_def try_catch_finally_def response_200_def)
  with n have "run_cycle ((t, Resolved_delay) # (t, Resolved_response response_200) #
            (t, Resolved_json q) # script) (Suspended (Await_delay p), w) = (pr, w')"
    by (simp add: run_cycle_not_suspended)
  with n f show ?thesis by blast
qed

lemma polls_pending_stay_suspended:
  assumes "\<forall>x \<in> set polls. \<not> terminal (snd x)"
  shows "\<exists>w'. run_cycle (poll_script polls) (Suspended (Await_delay p), w) =
           (Suspended (Await_delay p), w') \<and> isWarming w' = isWarming w"
  using assms
proof (induction polls arbitrary: w)
  case Nil
  then show ?case by simp
next
  case (Cons x polls)
  obtain t q where x: "x = (t, q)" by (cases x)
  with Cons.prems have nq: "\<not> terminal q" and rest: "\<forall>x \<in> set polls. \<not> terminal (snd x)"
    by simp_all
  have "run_cycle (poll_script (x # polls)) (Suspended (Await_delay p), w) =
        run_cycle (poll_script polls)
          (Suspended (Await_delay p), emit (Get_status (predictionId p)) w)"
    by (simp only: x poll_script.simps poll_round_pending[OF nq])
  with Cons.IH[OF rest, of "emit (Get_status (predictionId p)) w"]
  show ?case by simp
qed

lemma cycle_ends_at_terminal_poll:
  assumes "\<forall>x \<in> set polls. \<not> terminal (snd x)" and "terminal q"
  shows "\<exists>pr w'. run_cycle (poll_script (polls @ [(t, q)])) (Suspended (Await_delay p), w) = (pr, w') \<and>
          (\<forall>k. pr \<noteq> Suspended k) \<and> \<not> isWarming w'"
  using assms(1)
proof (induction polls arbitrary: w)
  case Nil
  from poll_round_terminal[OF assms(2), of t "[]" p w] show ?case by simp
next
  case (Cons x polls)
  obtain t' q' where x: "x = (t', q')" by (cases x)
  with Cons.prems have nq: "\<not> terminal q'" and rest: "\<forall>x \<in> set polls. \<not> terminal (snd x)"
    by simp_all
  have "run_cycle (poll_script ((x # polls) @ [(t, q)])) (Suspended (Await_delay p), w) =
        run_cycle (poll_script (polls @ [(t, q)]))
          (Suspended (Await_delay p), emit (Get_status (predictionId p)) w)"
    by (simp only: x append_Cons poll_script.simps poll_round_pending[OF nq])
  with Cons.IH[OF rest, of "emit (Get_status (predictionId p)) w"]
  show ?case by simp
qed

lemma start_hook_throw_keeps_flag:
  assumes "\<not> isWarming w" and "onWarmingStart (config w) () = Some e"
  shows "warmReplicateAPI now w =
           (Rejected e, w\<lparr>isWarming := True, effects := effects w @ [Hook_start]\<rparr>)"
  using assms by (simp add: warmReplicateAPI_def emit_def Let_def)

subsection \<open>The timer invariant\<close>

lemma timers_of_emit [simp]: "timers_of (emit e w) = timers_of w"
  by (simp add: timers_of_def)

lemma timers_of_call_hook: "timers_of (snd (call_hook ev r w)) = timers_of w"
  by (simp add: call_hook_def split: option.splits)

lemma timers_of_catch_block: "timers_of (snd (catch_block now e w)) = timers_of w"
  by (simp add: catch_block_def timers_of_def Let_def split: option.splits)

lemma timers_of_finally_block: "timers_of (snd (finally_block pw)) = timers_of (snd pw)"
  by (simp add: finally_block_def timers_of_def)

lemma timers_of_try_catch_finally:
  "timers_of (snd (try_catch_finally now bw)) = timers_of (snd bw)"
  by (cases bw; cases "fst bw")
     (simp_all add: try_catch_finally_def timers_of_finally_block timers_of_catch_block)

lemma timers_of_create_request: "timers_of (snd (create_request w)) = timers_of w"
  by (simp add: create_request_def split: sum.splits)

lemma timers_of_after_loop: "timers_of (snd (after_loop now q w)) = timers_of w"
  by (simp add: after_loop_def call_hook_def timers_of_def Let_def split: option.splits)

lemma timers_of_poll_loop: "timers_of (snd (poll_loop now p q w)) = timers_of w"
  by (simp add: poll_loop_def timers_of_after_loop)

lemma timers_of_resume_body: "timers_of (snd (resume_body now k s w)) = timers_of w"
  by (cases "(now, k, s, w)" rule: resume_body.cases)
     (simp_all add: timers_of_poll_loop timers_of_call_hook Let_def)

lemma timers_of_resume: "timers_of (snd (resume now k s w)) = timers_of w"
  by (simp add: resume_def timers_of_try_catch_finally timers_of_resume_body)

lemma timers_of_warmReplicateAPI: "timers_of (snd (warmReplicateAPI now w)) = timers_of w"
proof (cases "isWarming w")
  case True
  then show ?thesis by (simp add: warmReplicateAPI_def)
next
  case False
  then show ?thesis
    by (cases "onWarmingStart (config w) ()")
       (simp_all add: warmReplicateAPI_def Let_def timers_of_try_catch_finally
          timers_of_create_request, simp_all add: timers_of_def)
qed

lemma timers_of_spawn: "timers_of (spawn pw) = timers_of (snd pw)"
  by (cases pw rule: spawn.cases) (simp_all add: timers_of_def)

lemma timer_invariant_cong:
  "timers_of w' = timers_of w \<Longrightarrow> timer_invariant w \<Longrightarrow> timer_invariant w'"
  by (simp add: timers_of_def timer_invariant_def)

lemma clearPending_timeouts_empty:
  assumes "timer_invariant w"
  shows "timeouts (clearPending w) = []"
proof (cases "warmingTimer w")
  case None
  with assms have "timeouts w = []"
    by (cases "timeouts w") (auto simp: timer_invariant_def)
  with None show ?thesis by (simp add: clearPending_def)
next
  case (Some h)
  with assms have "\<forall>t \<in> set (timeouts w). fst t = h"
    by (auto simp: timer_invariant_def)
  then have "filter (\<lambda>t. fst t \<noteq> h) (timeouts w) = []"
    by (simp add: filter_empty_conv)
  with Some show ?thesis by (simp add: clearPending_def clearTimeout'_def)
qed

lemma clearPending_fields [simp]:
  "isWarming (clearPending w) = isWarming w"
  "lastWarmingTime (clearPending w) = lastWarmingTime w"
  "lastSuccessfulWarmingTime (clearPending w) = lastSuccessfulWarmingTime w"
  "warmingTimer (clearPending w) = warmingTimer w"
  "config (clearPending w) = config w"
  "nextTimerId (clearPending w) = nextTimerId w"
  "dummyImage (clearPending w) = dummyImage w"
  "inflight (clearPending w) = inflight w"
  "effects (clearPending w) = effects w"
  by (simp_all add: clearPending_def clearTimeout'_def split: option.splits)

lemma remainingCooldown_clearPending [simp]:
  "remainingCooldown now (clearPending w) = remainingCooldown now w"
  by (simp add: remainingCooldown_def)

lemma trigger_dropped: "isWarming w \<Longrightarrow> triggerWarmCall now w = w"
  by (simp add: triggerWarmCall_def)

lemma trigger_delayed:
  assumes "\<not> isWarming w" and "0 < remainingCooldown now w"
  shows "triggerWarmCall now w =
           (clearPending w)\<lparr>timeouts := timeouts (clearPending w) @ [(nextTimerId w, remainingCooldown now w)],
             nextTimerId := Suc (nextTimerId w),
             warmingTimer := Some (nextTimerId w)\<rparr>"
  using assms by (simp add: triggerWarmCall_def setTimeout'_def Let_def)

lemma trigger_immediate:
  assumes "\<not> isWarming w" and "remainingCooldown now w = 0"
  shows "triggerWarmCall now w = spawn (warmReplicateAPI now (clearPending w))"
  using assms by (simp add: triggerWarmCall_def Let_def)

lemma remainingCooldown_nonneg: "0 \<le> remainingCooldown now w"
  by (simp add: remainingCooldown_def Let_def)

lemma timer_invariant_trigger:
  assumes "timer_invariant w"
  shows "timer_invariant (triggerWarmCall now w)"
proof (cases "isWarming w")
  case True
  with assms show ?thesis by (simp add: trigger_dropped)
next
  case False
  have e: "timeouts (clearPending w) = []"
    using assms by (rule clearPending_timeouts_empty)
  show ?thesis
  proof (cases "0 < remainingCooldown now w")
    case True
    with False e show ?thesis
      by (simp add: trigger_delayed timer_invariant_def)
  next
    case False
    with remainingCooldown_nonneg[of now w] have z: "remainingCooldown now w = 0" by simp
    have "timers_of (triggerWarmCall now w) = timers_of (clearPending w)"
      using \<open>\<not> isWarming w\<close> z
      by (simp add: trigger_immediate timers_of_spawn timers_of_warmReplicateAPI)
    moreover have "timer_invariant (clearPending w)"
      using assms e by (simp add: timer_invariant_def)
    ultimately show ?thesis by (rule timer_invariant_cong)
  qed
qed

lemma timer_invariant_timer_fires:
  assumes "timer_invariant w"
  shows "timer_invariant (timer_fires now h w)"
proof (cases "h \<in> fst ` set (timeouts w)")
  case False
  with assms show ?thesis by (simp add: timer_fires_def)
next
  case True
  from assms have "\<forall>t \<in> set (timeouts w). warmingTimer w = Some (fst t)"
    by (simp add: timer_invariant_def)
  moreover from True obtain t0 where "t0 \<in> set (timeouts w)" and "fst t0 = h" by auto
  ultimately have "\<forall>t \<in> set (timeouts w). fst t = h"
    by (metis option.inject)
  then have e: "timeouts (clearTimeout' h w) = []"
    by (simp add: clearTimeout'_def filter_empty_conv)
  have "timers_of (spawn (warmReplicateAPI now (clearTimeout' h w))) = timers_of (clearTimeout' h w)"
    by (simp add: timers_of_spawn timers_of_warmReplicateAPI)
  with e have "timeouts (spawn (warmReplicateAPI now (clearTimeout' h w))) = []"
    by (simp add: timers_of_def)
  with True show ?thesis by (simp add: timer_fires_def timer_invariant_def)
qed

lemma timer_invariant_step:
  assumes "timer_invariant w"
  shows "timer_invariant (step w ev)"
proof (cases "(w, ev)" rule: step.cases)
  case (1 w' now)
  with assms show ?thesis by (simp add: handleUserInteraction_def timer_invariant_trigger)
next
  case (2 w' now h)
  with assms show ?thesis by (simp add: timer_invariant_timer_fires)
next
  case (3 w' now i s)
  let ?v = "w\<lparr>inflight := take i (inflight w) @ drop (Suc i) (inflight w)\<rparr>"
  have "timers_of (spawn (resume now (inflight w ! i) s ?v)) = timers_of w"
    by (simp add: timers_of_spawn timers_of_resume) (simp add: timers_of_def)
  then have "timer_invariant (spawn (resume now (inflight w ! i) s ?v))"
    using assms by (rule timer_invariant_cong)
  with assms 3 show ?thesis by simp
next
  case (4 w' now)
  with assms show ?thesis by (simp add: freezeWarming_def timer_invariant_def)
next
  case (5 w' now)
  with assms show ?thesis by (simp add: resetWarmingCooldown_def timer_invariant_def)
next
  case (6 w' now c)
  with assms show ?thesis by (simp add: updateConfig_def timer_invariant_def)
next
  case (7 w' now)
  with assms show ?thesis
    by (simp add: destroy_def stopDetection_def clearTimeout'_def timer_invariant_def
        split: option.splits) (auto simp: filter_empty_conv)
qed

lemma timer_invariant_new_page: "timer_invariant (new_page opts img)"
  by (simp add: new_page_def timer_invariant_def constructor_def warmer.defs page.defs)

lemma timer_invariant_foldl:
  "timer_invariant w \<Longrightarrow> timer_invariant (foldl step w evs)"
  by (induction evs arbitrary: w) (simp_all add: timer_invariant_step)

lemma timer_invariant_run_events:
  "timer_invariant (run_events evs (new_page opts img))"
  by (simp add: run_events_def timer_invariant_foldl timer_invariant_new_page)

subsection \<open>A call that passes the guard calls the start hook\<close>

lemma warmReplicateAPI_starts:
  assumes "\<not> isWarming w"
  shows "\<exists>rest. effects (snd (warmReplicateAPI now w)) = effects w @ Hook_start # rest"
proof (cases "onWarmingStart (config w) ()")
  case (Some e)
  with assms show ?thesis by (simp add: warmReplicateAPI_def Let_def)
next
  case None
  show ?thesis
  proof (cases "dummyImage w")
    case (Inl e)
    with None assms show ?thesis
      by (cases "onWarmingError (config w) e")
         (simp_all add: warmReplicateAPI_def create_request_def try_catch_finally_def
            catch_block_def finally_block_def Let_def)
  next
    case (Inr img)
    with None assms show ?thesis
      by (simp add: warmReplicateAPI_def create_request_def try_catch_finally_def Let_def)
  qed
qed

lemma spawn_effects_prefix:
  "\<exists>rest. effects (spawn pw) = effects (snd pw) @ rest"
  by (cases pw rule: spawn.cases) simp_all

lemma spawn_warm_starts:
  assumes "\<not> isWarming w"
  shows "\<exists>rest. effects (spawn (warmReplicateAPI now w)) = effects w @ Hook_start # rest"
proof -
  from warmReplicateAPI_starts[OF assms, of now]
  obtain r1 where a: "effects (snd (warmReplicateAPI now w)) = effects w @ Hook_start # r1" ..
  from spawn_effects_prefix[of "warmReplicateAPI now w"]
  obtain r2 where b: "effects (spawn (warmReplicateAPI now w)) = effects (snd (warmReplicateAPI now w)) @ r2" ..
  from a b have "effects (spawn (warmReplicateAPI now w)) = effects w @ Hook_start # (r1 @ r2)" by simp
  then show ?thesis ..
qed

subsection \<open>What a trigger does to the timer\<close>

lemma trigger_delayed_timers:
  assumes "\<not> isWarming w" and "timer_invariant w" and "0 < remainingCooldown now w"
  shows "timeouts (triggerWarmCall now w) = [(nextTimerId w, remainingCooldown now w)]"
    and "warmingTimer (triggerWarmCall now w) = Some (nextTimerId w)"
    and "nextTimerId (triggerWarmCall now w) = Suc (nextTimerId w)"
    and "\<not> isWarming (triggerWarmCall now w)"
    and "effects (triggerWarmCall now w) = effects w"
    and "inflight (triggerWarmCall now w) = inflight w"
    and "lastSuccessfulWarmingTime (triggerWarmCall now w) = lastSuccessfulWarmingTime w"
    and "lastWarmingTime (triggerWarmCall now w) = lastWarmingTime w"
    and "config (triggerWarmCall now w) = config w"
  using assms(1,3) clearPending_timeouts_empty[OF assms(2)]
  by (simp_all add: trigger_delayed)

lemma trigger_immediate_timers:
  assumes "\<not> isWarming w" and "timer_invariant w" and "remainingCooldown now w = 0"
  shows "timeouts (triggerWarmCall now w) = []"
    and "warmingTimer (triggerWarmCall now w) = warmingTimer w"
proof -
  have "timers_of (triggerWarmCall now w) = timers_of (clearPending w)"
    using assms(1,3) by (simp add: trigger_immediate timers_of_spawn timers_of_warmReplicateAPI)
  then show "timeouts (triggerWarmCall now w) = []"
    and "warmingTimer (triggerWarmCall now w) = warmingTimer w"
    using clearPending_timeouts_empty[OF assms(2)] by (simp_all add: timers_of_def)
qed

lemma old_timers_below_next:
  assumes "timer_invariant w" and "t \<in> set (timeouts w)"
  shows "fst t < nextTimerId w"
  using assms by (auto simp: timer_invariant_def)

lemma timer_fires_own_timer:
  assumes "timeouts w = [(h, d)]"
  shows "timer_fires now h w =
           (spawn (warmReplicateAPI now (w\<lparr>timeouts := []\<rparr>)))\<lparr>warmingTimer := None\<rparr>"
  using assms by (simp add: timer_fires_def clearTimeout'_def)

text \<open>A trigger at the very time of the reset waits for the whole cooldown.\<close>

lemma trigger_at_reset_time_is_delayed:
  assumes "0 < cooldownPeriod (config w)"
  shows "timeouts (triggerWarmCall t0 (resetWarmingCooldown t0 w)) =
           timeouts (clearPending w) @ [(nextTimerId w, cooldownPeriod (config w))]"
proof -
  have r: "\<not> isWarming (resetWarmingCooldown t0 w)" by (simp add: resetWarmingCooldown_def)
  have c: "remainingCooldown t0 (resetWarmingCooldown t0 w) = cooldownPeriod (config w)"
    using assms by (simp add: remainingCooldown_def resetWarmingCooldown_def Let_def)
  with assms have "0 < remainingCooldown t0 (resetWarmingCooldown t0 w)" by simp
  from trigger_delayed[OF r this] c show ?thesis
    by (simp add: resetWarmingCooldown_def clearPending_def clearTimeout'_def split: option.splits)
qed

subsection \<open>The end of the poll loop, and the handler\<close>

lemma try_catch_finally_thrown:
  "snd (try_catch_finally t (Thrown e, v)) =
     v\<lparr>lastWarmingTime := t, effects := effects v @ [Hook_error e], isWarming := False\<rparr>"
  by (cases "onWarmingError (config v) e")
     (simp_all add: try_catch_finally_def catch_block_def finally_block_def emit_def Let_def)

lemma try_catch_finally_done:
  "try_catch_finally t (Done, v) = (Fulfilled, v\<lparr>isWarming := False\<rparr>)"
  by (simp add: try_catch_finally_def finally_block_def)

lemma after_loop_succeeded:
  assumes "status q = ''succeeded''"
  shows "after_loop now q w =
    ((case onWarmingComplete (config w) () of None \<Rightarrow> Done | Some e \<Rightarrow> Thrown e),
     w\<lparr>lastWarmingTime := now, lastSuccessfulWarmingTime := now,
       effects := effects w @ [Hook_complete]\<rparr>)"
  using assms by (simp add: after_loop_def call_hook_def emit_def Let_def split: option.splits)

lemma after_loop_failed:
  assumes "status q = ''failed''"
  shows "after_loop now q w =
    ((case onWarmingError (config w) (Error (''Warming prediction failed: '' @ error_or_unknown q))
        of None \<Rightarrow> Done | Some e \<Rightarrow> Thrown e),
     w\<lparr>lastWarmingTime := now,
       effects := effects w @
         [Hook_error (Error (''Warming prediction failed: '' @ error_or_unknown q))]\<rparr>)"
  using assms by (simp add: after_loop_def call_hook_def emit_def Let_def split: option.splits)

lemma poll_loop_terminal:
  "status q = ''succeeded'' \<or> status q = ''failed'' \<Longrightarrow> poll_loop now p q w = after_loop now q w"
  by (auto simp: poll_loop_def)

lemma terminal_succeeded:
  assumes "status q = ''succeeded''"
  shows "snd (try_catch_finally now (poll_loop now p q w)) =
    w\<lparr>lastWarmingTime := now, lastSuccessfulWarmingTime := now,
      effects := effects w @ Hook_complete #
        (case onWarmingComplete (config w) () of None \<Rightarrow> [] | Some e \<Rightarrow> [Hook_error e]),
      isWarming := False\<rparr>"
proof (cases "onWarmingComplete (config w) ()")
  case None
  with assms show ?thesis
    by (simp add: poll_loop_terminal after_loop_succeeded try_catch_finally_done)
next
  case (Some e)
  with assms show ?thesis
    by (simp add: poll_loop_terminal after_loop_succeeded try_catch_finally_thrown)
qed

lemma terminal_failed:
  assumes "status q = ''failed''"
  shows "snd (try_catch_finally now (poll_loop now p q w)) =
    w\<lparr>lastWarmingTime := now,
      effects := effects w @
        Hook_error (Error (''Warming prediction failed: '' @ error_or_unknown q)) #
        (case onWarmingError (config w) (Error (''Warming prediction failed: '' @ error_or_unknown q))
           of None \<Rightarrow> [] | Some e \<Rightarrow> [Hook_error e]),
      isWarming := False\<rparr>"
proof (cases "onWarmingError (config w) (Error (''Warming prediction failed: '' @ error_or_unknown q))")
  case None
  with assms show ?thesis
    by (simp add: poll_loop_terminal after_loop_failed try_catch_finally_done)
next
  case (Some e)
  with assms show ?thesis
    by (simp add: poll_loop_terminal after_loop_failed try_catch_finally_thrown)
qed

lemma poll_loop_lastSuccessful:
  assumes "status q \<noteq> ''succeeded''"
  shows "lastSuccessfulWarmingTime (snd (poll_loop now p q w)) = lastSuccessfulWarmingTime w"
  using assms by (simp add: poll_loop_def after_loop_def call_hook_def Let_def split: option.splits)

lemma resume_body_lastSuccessful:
  assumes "\<forall>q. s = Resolved_json q \<longrightarrow> status q \<noteq> ''succeeded''"
  shows "lastSuccessfulWarmingTime (snd (resume_body t k s v)) = lastSuccessfulWarmingTime v"
  using assms
  by (cases "(t, k, s, v)" rule: resume_body.cases)
     (simp_all add: poll_loop_lastSuccessful call_hook_def Let_def split: option.splits)

lemma resume_json:
  assumes "k = Await_create_json \<or> k = Await_status_json p"
  shows "\<exists>p'. resume now k (Resolved_json q) w = try_catch_finally now (poll_loop now p' q w)"
  using assms by (auto simp: resume_def)

subsection \<open>The claims\<close>

lemma one_poll_cycle:
  "fst (run_cycle one_poll_script (warmReplicateAPI 20000 (new_page no_options sample_image))) = Fulfilled"
  by (simp add: one_poll_script_def eval_defs)

text \<open>
  Claim C1, as amended. A call of \<open>warmReplicateAPI\<close> that finds \<open>isWarming\<close> set
  returns at its guard and leaves the whole state as it is, the flag still set. A call
  that passes the guard and whose \<open>onWarmingStart\<close> hook returns has \<open>isWarming\<close>
  false when it ends, whatever the script of settlements was: early return on a
  creation status that is not OK, success, failed prediction, or a failure raised in the
  \<open>try\<close> (also by the \<open>onWarmingComplete\<close> or \<open>onWarmingError\<close> hook). The same
  holds block by block: every resumption that ends the call leaves the flag false, from
  any state, so also when other methods ran while the call was suspended.
\<close>

theorem warm_call_clears_flag:
  "(isWarming w \<longrightarrow> warmReplicateAPI now w = (Fulfilled, w)) \<and>
   (\<not> isWarming w \<longrightarrow> onWarmingStart (config w) () = None \<longrightarrow>
      run_cycle script (warmReplicateAPI now w) = (p, w') \<longrightarrow>
      (\<forall>k. p \<noteq> Suspended k) \<longrightarrow> \<not> isWarming w') \<and>
   (resume t k s v = (q, v') \<longrightarrow> (\<forall>k'. q \<noteq> Suspended k') \<longrightarrow> \<not> isWarming v')"
proof (intro conjI impI)
  assume "isWarming w"
  then show "warmReplicateAPI now w = (Fulfilled, w)"
    by (simp add: warmReplicateAPI_def)
next
  assume a: "\<not> isWarming w" "onWarmingStart (config w) () = None"
    and r: "run_cycle script (warmReplicateAPI now w) = (p, w')"
    and e: "\<forall>k. p \<noteq> Suspended k"
  define u where "u = emit Hook_start (w\<lparr>isWarming := True\<rparr>)"
  from a have c: "warmReplicateAPI now w = try_catch_finally now (create_request u)"
    by (simp add: warmReplicateAPI_def u_def Let_def)
  obtain p0 w0 where t: "try_catch_finally now (create_request u) = (p0, w0)"
    by (cases "try_catch_finally now (create_request u)")
  show "\<not> isWarming w'"
  proof (cases "\<exists>k. p0 = Suspended k")
    case True
    then obtain k where "p0 = Suspended k" ..
    with r c t have "run_cycle script (Suspended k, w0) = (p, w')" by simp
    then show ?thesis using e by (rule run_cycle_ended)
  next
    case False
    then have n: "\<forall>k. p0 \<noteq> Suspended k" by simp
    with r c t have "p = p0" "w' = w0" by (simp_all add: run_cycle_not_suspended)
    with t n show ?thesis by (auto dest: try_catch_finally_ended)
  qed
next
  assume "resume t k s v = (q, v')" and "\<forall>k'. q \<noteq> Suspended k'"
  then show "\<not> isWarming v'" by (rule resume_ended)
qed

theorem warm_call_clears_flag_witness:
  "isWarming (freezeWarming (new_page no_options sample_image)) \<and>
   warmReplicateAPI 20000 (freezeWarming (new_page no_options sample_image))
     = (Fulfilled, freezeWarming (new_page no_options sample_image)) \<and>
   \<not> isWarming (new_page no_options sample_image) \<and>
   fst (run_cycle one_poll_script (warmReplicateAPI 20000 (new_page no_options sample_image))) = Fulfilled \<and>
   \<not> isWarming (snd (run_cycle one_poll_script (warmReplicateAPI 20000 (new_page no_options sample_image)))) \<and>
   fst (resume 20100 Await_create (Resolved_response response_500) (freezeWarming (new_page no_options sample_image))) = Fulfilled \<and>
   \<not> isWarming (snd (resume 20100 Await_create (Resolved_response response_500) (freezeWarming (new_page no_options sample_image))))"
proof -
  let ?w = "new_page no_options sample_image"
  let ?r = "run_cycle one_poll_script (warmReplicateAPI 20000 ?w)"
  let ?b = "resume 20100 Await_create (Resolved_response response_500) (freezeWarming ?w)"
  note th = warm_call_clears_flag
  have f: "isWarming (freezeWarming ?w)" by (simp add: freezeWarming_def)
  have n: "\<not> isWarming ?w" by (simp add: eval_defs)
  have h: "onWarmingStart (config ?w) () = None" by (simp add: eval_defs)
  have p: "fst ?r = Fulfilled" by (rule one_poll_cycle)
  have q: "fst ?b = Fulfilled" by (simp add: eval_defs)
  from th[of "freezeWarming ?w" 20000] f
  have 1: "warmReplicateAPI 20000 (freezeWarming ?w) = (Fulfilled, freezeWarming ?w)" by blast
  have pr: "?r = (Fulfilled, snd ?r)" using p by (metis prod.collapse)
  have qr: "?b = (Fulfilled, snd ?b)" using q by (metis prod.collapse)
  from th[of ?w 20000 one_poll_script Fulfilled "snd ?r"] n h pr
  have 2: "\<not> isWarming (snd ?r)" by blast
  from th[of _ _ _ _ _ 20100 Await_create "Resolved_response response_500" "freezeWarming ?w" Fulfilled "snd ?b"] qr
  have 3: "\<not> isWarming (snd ?b)" by blast
  from f 1 n p 2 q 3 show ?thesis by blast
qed

text \<open>
  Claim C1 as stated fails at the entry guard: on a frozen warmer the call returns
  and the flag is still set.
\<close>

theorem warm_call_entry_guard_counterexample:
  "fst (warmReplicateAPI 20000 (freezeWarming (new_page no_options sample_image))) = Fulfilled \<and>
   isWarming (snd (warmReplicateAPI 20000 (freezeWarming (new_page no_options sample_image))))"
  by (simp add: eval_defs)

text \<open>
  Claim C2, as amended. When the creation request answers with a status that is not OK
  and the \<open>onWarmingError\<close> hook returns, the call invokes the hook once, with the
  error \<open>Warming failed: <status>\<close>, and ends there: whatever settlements follow are not
  consumed (no poll), \<open>lastWarmingTime\<close> and \<open>lastSuccessfulWarmingTime\<close> are as
  before, and \<open>isWarming\<close> is false.
\<close>

theorem creation_not_ok_returns_early:
  assumes "\<not> resp_ok r"
    and "onWarmingError (config w) (Error (''Warming failed: '' @ decimal (resp_status r))) = None"
  shows "run_cycle ((now, Resolved_response r) # script) (Suspended Await_create, w) =
           (Fulfilled,
            w\<lparr>effects := effects w @ [Hook_error (Error (''Warming failed: '' @ decimal (resp_status r)))],
              isWarming := False\<rparr>)"
  using assms
  by (cases script)
     (simp_all add: resume_def try_catch_finally_def call_hook_def finally_block_def emit_def Let_def)

theorem creation_not_ok_returns_early_witness:
  "\<not> resp_ok response_500 \<and>
   run_cycle ((20100, Resolved_response response_500) # tl one_poll_script)
     (warmReplicateAPI 20000 (new_page no_options sample_image)) =
     (Fulfilled,
      (new_page no_options sample_image)
        \<lparr>effects := [Hook_start,
                     Post_warm ''data:image/jpeg;base64,AAAA'' ''/gifs/thumbs_up.gif'',
                     Hook_error (Error ''Warming failed: 500'')]\<rparr>)"
proof -
  let ?w = "new_page no_options sample_image"
  let ?v = "?w\<lparr>isWarming := True,
               effects := [Hook_start, Post_warm ''data:image/jpeg;base64,AAAA'' ''/gifs/thumbs_up.gif'']\<rparr>"
  have s: "warmReplicateAPI 20000 ?w = (Suspended Await_create, ?v)"
    by (simp add: eval_defs)
  have n: "\<not> resp_ok response_500" by (simp add: response_500_def)
  have d: "decimal (resp_status response_500) = ''500''"
    by (simp add: response_500_def decimal.simps)
  have h: "onWarmingError (config ?v) (Error (''Warming failed: '' @ decimal (resp_status response_500))) = None"
    by (simp add: eval_defs)
  from creation_not_ok_returns_early[OF n h, of 20100 "tl one_poll_script"] s d n
  show ?thesis by (simp add: eval_defs)
qed

text \<open>
  Claim C2 as stated fails when the hook throws: line 121 is inside the \<open>try\<close>, so
  the \<open>catch\<close> block sets \<open>lastWarmingTime\<close> and calls the hook a second time.
\<close>

theorem creation_not_ok_throwing_hook_counterexample:
  "\<not> resp_ok response_500 \<and>
   lastWarmingTime (new_page error_hook_throws sample_image) = 0 \<and>
   run_cycle [(20100, Resolved_response response_500)]
     (warmReplicateAPI 20000 (new_page error_hook_throws sample_image)) =
     (Rejected (Error ''hook failed''),
      (new_page error_hook_throws sample_image)
        \<lparr>lastWarmingTime := 20100,
          effects := [Hook_start,
                     Post_warm ''data:image/jpeg;base64,AAAA'' ''/gifs/thumbs_up.gif'',
                     Hook_error (Error ''Warming failed: 500''),
                     Hook_error (Error ''hook failed'')]\<rparr>)"
  by (simp add: eval_defs)

text \<open>
  Claim C5. Any sequence of triggers that starts while \<open>isWarming\<close> is set leaves the
  whole page as it is: the fields of the warmer, the outstanding timeout, the suspended
  calls and the calls made so far. No warm call starts.
\<close>

theorem triggers_while_warming_are_dropped:
  "isWarming w \<Longrightarrow> foldl (\<lambda>v now. triggerWarmCall now v) w nows = w"
  by (induction nows) (simp_all add: trigger_dropped)

theorem triggers_while_warming_are_dropped_witness:
  "isWarming (freezeWarming (triggerWarmCall 3000 (new_page no_options sample_image))) \<and>
   foldl (\<lambda>v now. triggerWarmCall now v)
     (freezeWarming (triggerWarmCall 3000 (new_page no_options sample_image)))
     [5000, 11000, 25000]
   = freezeWarming (triggerWarmCall 3000 (new_page no_options sample_image)) \<and>
   timeouts (freezeWarming (triggerWarmCall 3000 (new_page no_options sample_image))) = [(1, 7000)]"
proof -
  let ?w = "freezeWarming (triggerWarmCall 3000 (new_page no_options sample_image))"
  have a: "isWarming ?w" by (simp add: freezeWarming_def)
  have t: "timeouts ?w = [(1, 7000)]" by (simp add: eval_defs)
  from triggers_while_warming_are_dropped[OF a, of "[5000, 11000, 25000]"] a t
  show ?thesis by blast
qed

text \<open>
  Claim C8. An absent or zero \<open>cooldownPeriod\<close> option gives the cooldown 10000, and
  no option gives the cooldown 0.
\<close>

theorem constructor_falsy_cooldown:
  "(opt_cooldownPeriod opts = None \<or> opt_cooldownPeriod opts = Some 0
      \<longrightarrow> cooldownPeriod (config (constructor opts)) = 10000) \<and>
   cooldownPeriod (config (constructor opts)) \<noteq> 0"
  by (auto simp: constructor_def or_number_def split: option.splits)

theorem constructor_falsy_cooldown_witness:
  "opt_cooldownPeriod (no_options\<lparr>opt_cooldownPeriod := Some 0\<rparr>) = Some 0 \<and>
   cooldownPeriod (config (constructor (no_options\<lparr>opt_cooldownPeriod := Some 0\<rparr>))) = 10000 \<and>
   cooldownPeriod (config (constructor no_options)) = 10000"
proof -
  have a: "opt_cooldownPeriod (no_options\<lparr>opt_cooldownPeriod := Some 0\<rparr>) = Some 0" by simp
  have b: "opt_cooldownPeriod no_options = None" by (simp add: no_options_def)
  from constructor_falsy_cooldown[of "no_options\<lparr>opt_cooldownPeriod := Some 0\<rparr>"] a
    constructor_falsy_cooldown[of no_options] b
  show ?thesis by blast
qed

text \<open>
  Claim C9. When exactly \<open>cooldownPeriod\<close> has passed since the last success and
  \<open>isWarming\<close> is false, the remaining cooldown is 0 and the trigger calls
  \<open>warmReplicateAPI\<close> at once, which passes its guard; \<open>shouldWarmAPI\<close>, and with it
  \<open>canWarm\<close> of \<open>getStatus\<close>, is false, its comparison being strict.
\<close>

theorem cooldown_boundary:
  assumes "\<not> isWarming w"
    and "now - lastSuccessfulWarmingTime w = cooldownPeriod (config w)"
  shows "remainingCooldown now w = 0 \<and>
         triggerWarmCall now w = spawn (warmReplicateAPI now (clearPending w)) \<and>
         (\<exists>rest. effects (triggerWarmCall now w) = effects w @ Hook_start # rest) \<and>
         \<not> shouldWarmAPI now w \<and> \<not> st_canWarm (getStatus now w)"
proof -
  from assms(2) have z: "remainingCooldown now w = 0"
    by (simp add: remainingCooldown_def Let_def)
  with assms(1) have t: "triggerWarmCall now w = spawn (warmReplicateAPI now (clearPending w))"
    by (simp add: trigger_immediate)
  from assms(1) have "\<not> isWarming (clearPending w)" by simp
  from spawn_warm_starts[OF this, of now] t
  have e: "\<exists>rest. effects (triggerWarmCall now w) = effects w @ Hook_start # rest" by simp
  from assms(2) have s: "\<not> shouldWarmAPI now w" by (simp add: shouldWarmAPI_def Let_def)
  then have "\<not> st_canWarm (getStatus now w)" by (simp add: getStatus_def)
  with z t e s show ?thesis by blast
qed

theorem cooldown_boundary_witness:
  "\<not> isWarming (new_page no_options sample_image) \<and>
   10000 - lastSuccessfulWarmingTime (new_page no_options sample_image)
     = cooldownPeriod (config (new_page no_options sample_image)) \<and>
   isWarming (triggerWarmCall 10000 (new_page no_options sample_image)) \<and>
   timeouts (triggerWarmCall 10000 (new_page no_options sample_image)) = [] \<and>
   inflight (triggerWarmCall 10000 (new_page no_options sample_image)) = [Await_create] \<and>
   effects (triggerWarmCall 10000 (new_page no_options sample_image)) =
     [Hook_start, Post_warm ''data:image/jpeg;base64,AAAA'' ''/gifs/thumbs_up.gif''] \<and>
   \<not> shouldWarmAPI 10000 (new_page no_options sample_image)"
proof -
  let ?w = "new_page no_options sample_image"
  let ?x = "spawn (warmReplicateAPI 10000 (clearPending ?w))"
  have a: "\<not> isWarming ?w" by (simp add: eval_defs)
  have b: "10000 - lastSuccessfulWarmingTime ?w = cooldownPeriod (config ?w)"
    by (simp add: eval_defs)
  have c: "isWarming ?x" "timeouts ?x = []" "inflight ?x = [Await_create]"
    "effects ?x = [Hook_start, Post_warm ''data:image/jpeg;base64,AAAA'' ''/gifs/thumbs_up.gif'']"
    by (simp_all add: eval_defs)
  from cooldown_boundary[OF a b]
  have t: "triggerWarmCall 10000 ?w = ?x" and s: "\<not> shouldWarmAPI 10000 ?w"
    by blast+
  from a b c s show ?thesis unfolding t by blast
qed

text \<open>
  Claim C3, as amended. In every state the page can reach from a fresh warmer, by any
  sequence of interactions, timeouts firing, settlements, freezes, resets, configuration
  updates and teardowns, at most one timeout is outstanding and \<open>warmingTimer\<close> holds
  its handle. A trigger that finds \<open>isWarming\<close> set is dropped before anything is
  cancelled. A trigger that finds it clear cancels every outstanding timeout first; then
  a delayed fire stores one new timeout, and an immediate fire stores none and leaves
  the cancelled handle in \<open>warmingTimer\<close>.
\<close>

theorem pending_timer_discipline:
  "timer_invariant (run_events evs (new_page opts img)) \<and>
   (isWarming w \<longrightarrow> triggerWarmCall now w = w) \<and>
   (\<not> isWarming w \<longrightarrow> timer_invariant w \<longrightarrow>
      (\<forall>t \<in> set (timeouts w). fst t \<notin> fst ` set (timeouts (triggerWarmCall now w))) \<and>
      (0 < remainingCooldown now w \<longrightarrow>
         timeouts (triggerWarmCall now w) = [(nextTimerId w, remainingCooldown now w)] \<and>
         warmingTimer (triggerWarmCall now w) = Some (nextTimerId w)) \<and>
      (remainingCooldown now w = 0 \<longrightarrow>
         timeouts (triggerWarmCall now w) = [] \<and>
         warmingTimer (triggerWarmCall now w) = warmingTimer w))"
proof (intro conjI impI)
  show "timer_invariant (run_events evs (new_page opts img))"
    by (rule timer_invariant_run_events)
next
  assume "isWarming w"
  then show "triggerWarmCall now w = w" by (rule trigger_dropped)
next
  assume a: "\<not> isWarming w" "timer_invariant w"
  show "\<forall>t \<in> set (timeouts w). fst t \<notin> fst ` set (timeouts (triggerWarmCall now w))"
  proof (cases "0 < remainingCooldown now w")
    case True
    have "fst t \<noteq> nextTimerId w" if "t \<in> set (timeouts w)" for t
      using old_timers_below_next[OF a(2) that] by simp
    with trigger_delayed_timers(1)[OF a True] show ?thesis by simp
  next
    case False
    with remainingCooldown_nonneg[of now w] have "remainingCooldown now w = 0" by simp
    from trigger_immediate_timers(1)[OF a this] show ?thesis by simp
  qed
next
  assume a: "\<not> isWarming w" "timer_invariant w" "0 < remainingCooldown now w"
  then show "timeouts (triggerWarmCall now w) = [(nextTimerId w, remainingCooldown now w)]"
    by (rule trigger_delayed_timers(1))
  from a show "warmingTimer (triggerWarmCall now w) = Some (nextTimerId w)"
    by (rule trigger_delayed_timers(2))
next
  assume a: "\<not> isWarming w" "timer_invariant w" "remainingCooldown now w = 0"
  then show "timeouts (triggerWarmCall now w) = []" by (rule trigger_immediate_timers(1))
  from a show "warmingTimer (triggerWarmCall now w) = warmingTimer w"
    by (rule trigger_immediate_timers(2))
qed

theorem pending_timer_discipline_witness:
  "timeouts (run_events [(3000, Interaction)] (new_page no_options sample_image)) = [(1, 7000)] \<and>
   timeouts (run_events [(3000, Interaction), (5000, Interaction)] (new_page no_options sample_image))
     = [(2, 5000)] \<and>
   timeouts (run_events three_triggers (new_page no_options sample_image)) = [] \<and>
   warmingTimer (run_events three_triggers (new_page no_options sample_image)) = Some 2 \<and>
   timer_invariant (run_events three_triggers (new_page no_options sample_image))"
proof -
  let ?w0 = "new_page no_options sample_image"
  let ?w1 = "triggerWarmCall 3000 ?w0"
  let ?w2 = "triggerWarmCall 5000 ?w1"
  let ?w3 = "triggerWarmCall 11000 ?w2"
  have r: "run_events [(3000, Interaction)] ?w0 = ?w1"
    "run_events [(3000, Interaction), (5000, Interaction)] ?w0 = ?w2"
    "run_events three_triggers ?w0 = ?w3"
    by (simp_all add: run_events_def three_triggers_def handleUserInteraction_def)
  have i0: "timer_invariant ?w0" by (rule timer_invariant_new_page)
  have n0: "\<not> isWarming ?w0" by (simp add: eval_defs)
  have c0: "remainingCooldown 3000 ?w0 = 7000" "nextTimerId ?w0 = 1" by (simp_all add: eval_defs)
  from pending_timer_discipline[of _ _ _ ?w0 3000] n0 i0 c0
  have t1: "timeouts ?w1 = [(1, 7000)]" by simp
  have i1: "timer_invariant ?w1" using i0 by (rule timer_invariant_trigger)
  have n1: "\<not> isWarming ?w1" by (simp add: eval_defs)
  have c1: "remainingCooldown 5000 ?w1 = 5000" "nextTimerId ?w1 = 2" by (simp_all add: eval_defs)
  from pending_timer_discipline[of _ _ _ ?w1 5000] n1 i1 c1
  have t2: "timeouts ?w2 = [(2, 5000)]" "warmingTimer ?w2 = Some 2" by simp_all
  have i2: "timer_invariant ?w2" using i1 by (rule timer_invariant_trigger)
  have n2: "\<not> isWarming ?w2" by (simp add: eval_defs)
  have c2: "remainingCooldown 11000 ?w2 = 0" by (simp add: eval_defs)
  from pending_timer_discipline[of _ _ _ ?w2 11000] n2 i2 c2 t2
  have t3: "timeouts ?w3 = []" "warmingTimer ?w3 = Some 2" by simp_all
  from pending_timer_discipline[of three_triggers no_options sample_image]
  have i3: "timer_invariant (run_events three_triggers ?w0)" by blast
  from t1 t2(1) t3 i3 show ?thesis by (simp only: r)
qed

text \<open>
  Claim C3 as stated fails for a dropped trigger: the timeout scheduled before the freeze
  is neither cancelled nor replaced.
\<close>

theorem dropped_trigger_keeps_timer_counterexample:
  "timeouts (freezeWarming (triggerWarmCall 3000 (new_page no_options sample_image))) = [(1, 7000)] \<and>
   timeouts (triggerWarmCall 5000 (freezeWarming (triggerWarmCall 3000 (new_page no_options sample_image))))
     = [(1, 7000)] \<and>
   warmingTimer (triggerWarmCall 5000 (freezeWarming (triggerWarmCall 3000 (new_page no_options sample_image))))
     = Some 1"
  by (simp add: eval_defs)

lemma trigger_decision:
  assumes "\<not> isWarming w" and "timer_invariant w"
  shows
   "remainingCooldown now w =
      max 0 (cooldownPeriod (config w) - (now - lastSuccessfulWarmingTime w)) \<and>
    (remainingCooldown now w = 0 \<longrightarrow>
       triggerWarmCall now w = spawn (warmReplicateAPI now (clearPending w)) \<and>
       timeouts (triggerWarmCall now w) = [] \<and>
       (\<exists>rest. effects (triggerWarmCall now w) = effects w @ Hook_start # rest)) \<and>
    (0 < remainingCooldown now w \<longrightarrow>
       timeouts (triggerWarmCall now w) = [(nextTimerId w, remainingCooldown now w)] \<and>
       warmingTimer (triggerWarmCall now w) = Some (nextTimerId w) \<and>
       \<not> isWarming (triggerWarmCall now w) \<and>
       effects (triggerWarmCall now w) = effects w \<and>
       inflight (triggerWarmCall now w) = inflight w \<and>
       timer_fires t (nextTimerId w) (triggerWarmCall now w) =
         (spawn (warmReplicateAPI t ((triggerWarmCall now w)\<lparr>timeouts := []\<rparr>)))
           \<lparr>warmingTimer := None\<rparr> \<and>
       warmingTimer (timer_fires t (nextTimerId w) (triggerWarmCall now w)) = None \<and>
       timeouts (timer_fires t (nextTimerId w) (triggerWarmCall now w)) = [] \<and>
       (\<exists>rest. effects (timer_fires t (nextTimerId w) (triggerWarmCall now w)) =
                  effects w @ Hook_start # rest) \<and>
       (now \<le> now2 \<and> now2 < now + remainingCooldown now w \<longrightarrow>
          timeouts (triggerWarmCall now2 (triggerWarmCall now w)) =
            [(Suc (nextTimerId w), remainingCooldown now w - (now2 - now))] \<and>
          warmingTimer (triggerWarmCall now2 (triggerWarmCall now w)) = Some (Suc (nextTimerId w))))"
proof (intro conjI impI)
  show "remainingCooldown now w =
      max 0 (cooldownPeriod (config w) - (now - lastSuccessfulWarmingTime w))"
    by (simp add: remainingCooldown_def Let_def)
next
  assume z: "remainingCooldown now w = 0"
  from assms(1) z show t: "triggerWarmCall now w = spawn (warmReplicateAPI now (clearPending w))"
    by (rule trigger_immediate)
  from assms z show "timeouts (triggerWarmCall now w) = []"
    by (rule trigger_immediate_timers(1))
  from assms(1) have "\<not> isWarming (clearPending w)" by simp
  from spawn_warm_starts[OF this, of now] t
  show "\<exists>rest. effects (triggerWarmCall now w) = effects w @ Hook_start # rest" by simp
next
  assume p: "0 < remainingCooldown now w"
  let ?v = "triggerWarmCall now w"
  note d = trigger_delayed_timers[OF assms p]
  show "timeouts ?v = [(nextTimerId w, remainingCooldown now w)]" by (rule d(1))
  show "warmingTimer ?v = Some (nextTimerId w)" by (rule d(2))
  show "\<not> isWarming ?v" by (rule d(4))
  show "effects ?v = effects w" by (rule d(5))
  show "inflight ?v = inflight w" by (rule d(6))
  show f: "timer_fires t (nextTimerId w) ?v =
      (spawn (warmReplicateAPI t (?v\<lparr>timeouts := []\<rparr>)))\<lparr>warmingTimer := None\<rparr>"
    using d(1) by (rule timer_fires_own_timer)
  show "warmingTimer (timer_fires t (nextTimerId w) ?v) = None"
    by (simp only: f) simp
  have "timers_of (spawn (warmReplicateAPI t (?v\<lparr>timeouts := []\<rparr>))) = timers_of (?v\<lparr>timeouts := []\<rparr>)"
    by (simp add: timers_of_spawn timers_of_warmReplicateAPI)
  then have "timeouts (spawn (warmReplicateAPI t (?v\<lparr>timeouts := []\<rparr>))) = []"
    by (simp add: timers_of_def)
  then show "timeouts (timer_fires t (nextTimerId w) ?v) = []"
    by (simp only: f) simp
  from d(4) have "\<not> isWarming (?v\<lparr>timeouts := []\<rparr>)" by simp
  from spawn_warm_starts[OF this, of t]
  obtain rest where "effects (spawn (warmReplicateAPI t (?v\<lparr>timeouts := []\<rparr>))) =
      effects (?v\<lparr>timeouts := []\<rparr>) @ Hook_start # rest" ..
  with d(5) have "effects (timer_fires t (nextTimerId w) ?v) = effects w @ Hook_start # rest"
    by (simp only: f) simp
  then show "\<exists>rest. effects (timer_fires t (nextTimerId w) ?v) = effects w @ Hook_start # rest" ..
next
  assume p: "0 < remainingCooldown now w"
    and b: "now \<le> now2 \<and> now2 < now + remainingCooldown now w"
  let ?v = "triggerWarmCall now w"
  note d = trigger_delayed_timers[OF assms p]
  have iv: "timer_invariant ?v" using assms(2) by (rule timer_invariant_trigger)
  have "remainingCooldown now2 ?v = remainingCooldown now2 w"
    using d(7,9) by (simp add: remainingCooldown_def)
  also have "\<dots> = remainingCooldown now w - (now2 - now)"
    using p b by (simp add: remainingCooldown_def Let_def max_def split: if_splits)
  finally have r2: "remainingCooldown now2 ?v = remainingCooldown now w - (now2 - now)" .
  with b have p2: "0 < remainingCooldown now2 ?v" by simp
  note d2 = trigger_delayed_timers[OF d(4) iv p2]
  from d2(1) d(3) r2
  show "timeouts (triggerWarmCall now2 ?v) =
      [(Suc (nextTimerId w), remainingCooldown now w - (now2 - now))]" by simp
  from d2(2) d(3)
  show "warmingTimer (triggerWarmCall now2 ?v) = Some (Suc (nextTimerId w))" by simp
qed

text \<open>
  Claim C4. In every state the page can reach from a fresh warmer, a trigger that finds
  \<open>isWarming\<close> clear computes
  \<open>remaining = max(0, cooldownPeriod - (now - lastSuccessfulWarmingTime))\<close>. At 0 it
  calls \<open>warmReplicateAPI\<close> at once, which passes its guard, and no timeout is left. Above
  0 it leaves exactly one timeout, with delay \<open>remaining\<close> and its handle in
  \<open>warmingTimer\<close>, and starts nothing; when that timeout fires the warm call is made and
  \<open>warmingTimer\<close> is \<open>null\<close> again; and a second trigger before the delay is over cancels
  it and leaves exactly one new timeout, whose delay is what is then left of the cooldown.
\<close>

theorem trigger_fires_or_schedules:
  assumes "w = run_events evs (new_page opts img)" and "\<not> isWarming w"
  shows
   "remainingCooldown now w =
      max 0 (cooldownPeriod (config w) - (now - lastSuccessfulWarmingTime w)) \<and>
    (remainingCooldown now w = 0 \<longrightarrow>
       triggerWarmCall now w = spawn (warmReplicateAPI now (clearPending w)) \<and>
       timeouts (triggerWarmCall now w) = [] \<and>
       (\<exists>rest. effects (triggerWarmCall now w) = effects w @ Hook_start # rest)) \<and>
    (0 < remainingCooldown now w \<longrightarrow>
       timeouts (triggerWarmCall now w) = [(nextTimerId w, remainingCooldown now w)] \<and>
       warmingTimer (triggerWarmCall now w) = Some (nextTimerId w) \<and>
       \<not> isWarming (triggerWarmCall now w) \<and>
       effects (triggerWarmCall now w) = effects w \<and>
       inflight (triggerWarmCall now w) = inflight w \<and>
       timer_fires t (nextTimerId w) (triggerWarmCall now w) =
         (spawn (warmReplicateAPI t ((triggerWarmCall now w)\<lparr>timeouts := []\<rparr>)))
           \<lparr>warmingTimer := None\<rparr> \<and>
       warmingTimer (timer_fires t (nextTimerId w) (triggerWarmCall now w)) = None \<and>
       timeouts (timer_fires t (nextTimerId w) (triggerWarmCall now w)) = [] \<and>
       (\<exists>rest. effects (timer_fires t (nextTimerId w) (triggerWarmCall now w)) =
                  effects w @ Hook_start # rest) \<and>
       (now \<le> now2 \<and> now2 < now + remainingCooldown now w \<longrightarrow>
          timeouts (triggerWarmCall now2 (triggerWarmCall now w)) =
            [(Suc (nextTimerId w), remainingCooldown now w - (now2 - now))] \<and>
          warmingTimer (triggerWarmCall now2 (triggerWarmCall now w)) = Some (Suc (nextTimerId w))))"
proof -
  from assms(1) have "timer_invariant w" by (simp add: timer_invariant_run_events)
  with assms(2) show ?thesis by (rule trigger_decision)
qed

theorem trigger_fires_or_schedules_witness:
  "\<not> isWarming (new_page no_options sample_image) \<and>
   new_page no_options sample_image = run_events [] (new_page no_options sample_image) \<and>
   remainingCooldown 3000 (new_page no_options sample_image) = 7000 \<and>
   timeouts (triggerWarmCall 3000 (new_page no_options sample_image)) = [(1, 7000)] \<and>
   warmingTimer (triggerWarmCall 3000 (new_page no_options sample_image)) = Some 1 \<and>
   warmingTimer (timer_fires 10000 1 (triggerWarmCall 3000 (new_page no_options sample_image))) = None \<and>
   timeouts (triggerWarmCall 5000 (triggerWarmCall 3000 (new_page no_options sample_image)))
     = [(2, 5000)] \<and>
   remainingCooldown 11000 (new_page no_options sample_image) = 0 \<and>
   triggerWarmCall 11000 (new_page no_options sample_image)
     = spawn (warmReplicateAPI 11000 (clearPending (new_page no_options sample_image)))"
proof -
  let ?w = "new_page no_options sample_image"
  have n: "\<not> isWarming ?w" by (simp add: eval_defs)
  have i: "timer_invariant ?w" by (rule timer_invariant_new_page)
  have c: "remainingCooldown 3000 ?w = 7000" "nextTimerId ?w = 1" "remainingCooldown 11000 ?w = 0"
    by (simp_all add: eval_defs)
  have r: "?w = run_events [] ?w" by (simp add: run_events_def)
  note a = trigger_fires_or_schedules[OF r n, of 3000 10000 5000]
  note b = trigger_fires_or_schedules[OF r n, of 11000]
  from a c have 1: "timeouts (triggerWarmCall 3000 ?w) = [(1, 7000)]"
    "warmingTimer (triggerWarmCall 3000 ?w) = Some 1"
    "warmingTimer (timer_fires 10000 1 (triggerWarmCall 3000 ?w)) = None"
    "timeouts (triggerWarmCall 5000 (triggerWarmCall 3000 ?w)) = [(2, 5000)]"
    by simp_all
  from b c have 2: "triggerWarmCall 11000 ?w = spawn (warmReplicateAPI 11000 (clearPending ?w))"
    by blast
  from n r c 1 2 show ?thesis by blast
qed

text \<open>
  Claim C7. \<open>freezeWarming\<close> sets \<open>isWarming\<close> and nothing else: timeouts, timer
  handle and both timestamps are as before. \<open>resetWarmingCooldown\<close> clears
  \<open>isWarming\<close> and sets \<open>lastSuccessfulWarmingTime\<close> to now. A trigger right after a
  freeze is dropped. A trigger right after a reset, at a time when the cooldown counted
  from the reset is over, calls \<open>warmReplicateAPI\<close> at once, which passes its guard.
\<close>

theorem freeze_and_reset:
  "freezeWarming w = w\<lparr>isWarming := True\<rparr> \<and>
   isWarming (freezeWarming w) \<and>
   timeouts (freezeWarming w) = timeouts w \<and>
   warmingTimer (freezeWarming w) = warmingTimer w \<and>
   lastWarmingTime (freezeWarming w) = lastWarmingTime w \<and>
   lastSuccessfulWarmingTime (freezeWarming w) = lastSuccessfulWarmingTime w \<and>
   \<not> isWarming (resetWarmingCooldown t0 w) \<and>
   lastSuccessfulWarmingTime (resetWarmingCooldown t0 w) = t0 \<and>
   triggerWarmCall now (freezeWarming w) = freezeWarming w \<and>
   (remainingCooldown now (resetWarmingCooldown t0 w) = 0 \<longrightarrow>
      triggerWarmCall now (resetWarmingCooldown t0 w) =
        spawn (warmReplicateAPI now (clearPending (resetWarmingCooldown t0 w))) \<and>
      (\<exists>rest. effects (triggerWarmCall now (resetWarmingCooldown t0 w)) =
                 effects w @ Hook_start # rest))"
proof -
  have f: "isWarming (freezeWarming w)" by (simp add: freezeWarming_def)
  have r: "\<not> isWarming (resetWarmingCooldown t0 w)" by (simp add: resetWarmingCooldown_def)
  have e: "effects (resetWarmingCooldown t0 w) = effects w" by (simp add: resetWarmingCooldown_def)
  have "remainingCooldown now (resetWarmingCooldown t0 w) = 0 \<longrightarrow>
      triggerWarmCall now (resetWarmingCooldown t0 w) =
        spawn (warmReplicateAPI now (clearPending (resetWarmingCooldown t0 w))) \<and>
      (\<exists>rest. effects (triggerWarmCall now (resetWarmingCooldown t0 w)) =
                 effects w @ Hook_start # rest)"
  proof
    assume z: "remainingCooldown now (resetWarmingCooldown t0 w) = 0"
    with r have t: "triggerWarmCall now (resetWarmingCooldown t0 w) =
        spawn (warmReplicateAPI now (clearPending (resetWarmingCooldown t0 w)))"
      by (rule trigger_immediate)
    from r have "\<not> isWarming (clearPending (resetWarmingCooldown t0 w))" by simp
    from spawn_warm_starts[OF this, of now] e t
    show "triggerWarmCall now (resetWarmingCooldown t0 w) =
        spawn (warmReplicateAPI now (clearPending (resetWarmingCooldown t0 w))) \<and>
      (\<exists>rest. effects (triggerWarmCall now (resetWarmingCooldown t0 w)) =
                 effects w @ Hook_start # rest)" by simp
  qed
  moreover have "triggerWarmCall now (freezeWarming w) = freezeWarming w"
    using f by (rule trigger_dropped)
  moreover have "freezeWarming w = w\<lparr>isWarming := True\<rparr>"
    "timeouts (freezeWarming w) = timeouts w"
    "warmingTimer (freezeWarming w) = warmingTimer w"
    "lastWarmingTime (freezeWarming w) = lastWarmingTime w"
    "lastSuccessfulWarmingTime (freezeWarming w) = lastSuccessfulWarmingTime w"
    "lastSuccessfulWarmingTime (resetWarmingCooldown t0 w) = t0"
    by (simp_all add: freezeWarming_def resetWarmingCooldown_def)
  ultimately show ?thesis using f r by blast
qed

theorem freeze_and_reset_witness:
  "remainingCooldown 61000 (resetWarmingCooldown 50000 (freezeWarming (new_page no_options sample_image))) = 0 \<and>
   triggerWarmCall 61000 (resetWarmingCooldown 50000 (freezeWarming (new_page no_options sample_image))) =
     spawn (warmReplicateAPI 61000
       (clearPending (resetWarmingCooldown 50000 (freezeWarming (new_page no_options sample_image))))) \<and>
   isWarming (triggerWarmCall 61000
     (resetWarmingCooldown 50000 (freezeWarming (new_page no_options sample_image)))) \<and>
   triggerWarmCall 61000 (freezeWarming (new_page no_options sample_image)) =
     freezeWarming (new_page no_options sample_image)"
proof -
  let ?w = "new_page no_options sample_image"
  let ?r = "resetWarmingCooldown 50000 (freezeWarming ?w)"
  note th = freeze_and_reset[of "freezeWarming ?w" 50000 61000]
  note th2 = freeze_and_reset[of ?w 50000 61000]
  have z: "remainingCooldown 61000 ?r = 0" by (simp add: eval_defs)
  from th z have t: "triggerWarmCall 61000 ?r = spawn (warmReplicateAPI 61000 (clearPending ?r))"
    by blast
  have i: "isWarming (spawn (warmReplicateAPI 61000 (clearPending ?r)))"
    by (simp add: eval_defs)
  from th2 have d: "triggerWarmCall 61000 (freezeWarming ?w) = freezeWarming ?w" by blast
  from z t i d show ?thesis by simp
qed

text \<open>
  Claim C10. \<open>resetWarmingCooldown\<close> changes \<open>isWarming\<close> and
  \<open>lastSuccessfulWarmingTime\<close> only: \<open>warmingTimer\<close>, \<open>lastWarmingTime\<close>, the
  configuration and the outstanding timeouts are as before. A timeout outstanding before
  the reset still fires after it, and its callback calls \<open>warmReplicateAPI\<close>, which then
  passes its guard.
\<close>

theorem reset_keeps_pending_timer:
  "warmingTimer (resetWarmingCooldown t0 w) = warmingTimer w \<and>
   lastWarmingTime (resetWarmingCooldown t0 w) = lastWarmingTime w \<and>
   timeouts (resetWarmingCooldown t0 w) = timeouts w \<and>
   config (resetWarmingCooldown t0 w) = config w \<and>
   resetWarmingCooldown t0 w = w\<lparr>isWarming := False, lastSuccessfulWarmingTime := t0\<rparr> \<and>
   (h \<in> fst ` set (timeouts w) \<longrightarrow>
      timer_fires now h (resetWarmingCooldown t0 w) =
        (spawn (warmReplicateAPI now (clearTimeout' h (resetWarmingCooldown t0 w))))
          \<lparr>warmingTimer := None\<rparr> \<and>
      (\<exists>rest. effects (timer_fires now h (resetWarmingCooldown t0 w)) =
                 effects w @ Hook_start # rest))"
proof -
  let ?r = "resetWarmingCooldown t0 w"
  have "h \<in> fst ` set (timeouts w) \<longrightarrow>
      timer_fires now h ?r = (spawn (warmReplicateAPI now (clearTimeout' h ?r)))\<lparr>warmingTimer := None\<rparr> \<and>
      (\<exists>rest. effects (timer_fires now h ?r) = effects w @ Hook_start # rest)"
  proof
    assume m: "h \<in> fst ` set (timeouts w)"
    then have f: "timer_fires now h ?r =
        (spawn (warmReplicateAPI now (clearTimeout' h ?r)))\<lparr>warmingTimer := None\<rparr>"
      by (simp add: timer_fires_def resetWarmingCooldown_def)
    have "\<not> isWarming (clearTimeout' h ?r)"
      by (simp add: clearTimeout'_def resetWarmingCooldown_def)
    from spawn_warm_starts[OF this, of now]
    obtain rest where "effects (spawn (warmReplicateAPI now (clearTimeout' h ?r))) =
        effects (clearTimeout' h ?r) @ Hook_start # rest" ..
    then have "effects (timer_fires now h ?r) = effects w @ Hook_start # rest"
      using f by (simp add: clearTimeout'_def resetWarmingCooldown_def)
    with f show "timer_fires now h ?r =
        (spawn (warmReplicateAPI now (clearTimeout' h ?r)))\<lparr>warmingTimer := None\<rparr> \<and>
      (\<exists>rest. effects (timer_fires now h ?r) = effects w @ Hook_start # rest)" by blast
  qed
  moreover have "warmingTimer ?r = warmingTimer w" "lastWarmingTime ?r = lastWarmingTime w"
    "timeouts ?r = timeouts w" "config ?r = config w"
    "?r = w\<lparr>isWarming := False, lastSuccessfulWarmingTime := t0\<rparr>"
    by (simp_all add: resetWarmingCooldown_def)
  ultimately show ?thesis by blast
qed

theorem reset_keeps_pending_timer_witness:
  "timeouts (freezeWarming (triggerWarmCall 3000 (new_page no_options sample_image))) = [(1, 7000)] \<and>
   timeouts (resetWarmingCooldown 9000 (freezeWarming (triggerWarmCall 3000 (new_page no_options sample_image))))
     = [(1, 7000)] \<and>
   warmingTimer (resetWarmingCooldown 9000 (freezeWarming (triggerWarmCall 3000 (new_page no_options sample_image))))
     = Some 1 \<and>
   (\<exists>rest. effects (timer_fires 10000 1
       (resetWarmingCooldown 9000 (freezeWarming (triggerWarmCall 3000 (new_page no_options sample_image)))))
     = Hook_start # rest)"
proof -
  let ?w = "freezeWarming (triggerWarmCall 3000 (new_page no_options sample_image))"
  note th = reset_keeps_pending_timer[of 9000 ?w 1 10000]
  have t: "timeouts ?w = [(1, 7000)]" by (simp add: eval_defs)
  have wt: "warmingTimer ?w = Some 1" by (simp add: eval_defs)
  have e: "effects ?w = []" by (simp add: eval_defs)
  from t have m: "1 \<in> fst ` set (timeouts ?w)" by simp
  from th m have "\<exists>rest. effects (timer_fires 10000 1 (resetWarmingCooldown 9000 ?w)) =
      effects ?w @ Hook_start # rest"
    by blast
  then have "\<exists>rest. effects (timer_fires 10000 1 (resetWarmingCooldown 9000 ?w)) = Hook_start # rest"
    by (simp only: e append_Nil)
  moreover from th have "timeouts (resetWarmingCooldown 9000 ?w) = timeouts ?w" by blast
  then have "timeouts (resetWarmingCooldown 9000 ?w) = [(1, 7000)]" by (simp only: t)
  moreover from th have "warmingTimer (resetWarmingCooldown 9000 ?w) = warmingTimer ?w" by blast
  then have "warmingTimer (resetWarmingCooldown 9000 ?w) = Some 1" by (simp only: wt)
  ultimately show ?thesis using t by blast
qed

text \<open>
  Claim C6, as amended. When the prediction read at either \<open>json\<close> await is terminal,
  \<open>lastWarmingTime\<close> is set to now. On \<open>succeeded\<close>,
  \<open>lastSuccessfulWarmingTime\<close> is set to now as well and \<open>onWarmingComplete\<close> is
  called. On \<open>failed\<close>, \<open>onWarmingError\<close> is called with
  \<open>Warming prediction failed:\<close> and the prediction's error or \<open>Unknown error\<close>, and
  \<open>lastSuccessfulWarmingTime\<close> is as before. When a block of the \<open>try\<close> throws,
  \<open>lastWarmingTime\<close> is set to now, \<open>onWarmingError\<close> is called with what was thrown,
  and the handler leaves \<open>lastSuccessfulWarmingTime\<close> as it was at the throw: that is
  its value before the block, unless the block is the one that read \<open>succeeded\<close>, where
  what throws is the \<open>onWarmingComplete\<close> hook and the time has been set already.
\<close>

theorem terminal_state_bookkeeping:
  "(k = Await_create_json \<or> k = Await_status_json p \<longrightarrow>
      (status q = ''succeeded'' \<longrightarrow>
         (let w' = snd (resume now k (Resolved_json q) w)
          in lastWarmingTime w' = now \<and> lastSuccessfulWarmingTime w' = now \<and>
             effects w' = effects w @ Hook_complete #
               (case onWarmingComplete (config w) () of None \<Rightarrow> [] | Some e \<Rightarrow> [Hook_error e]))) \<and>
      (status q = ''failed'' \<longrightarrow>
         (let w' = snd (resume now k (Resolved_json q) w);
              err = Error (''Warming prediction failed: '' @ error_or_unknown q)
          in lastWarmingTime w' = now \<and>
             lastSuccessfulWarmingTime w' = lastSuccessfulWarmingTime w \<and>
             effects w' = effects w @ Hook_error err #
               (case onWarmingError (config w) err of None \<Rightarrow> [] | Some e \<Rightarrow> [Hook_error e])))) \<and>
   (resume_body t j s v = (Thrown e, v') \<longrightarrow>
      lastWarmingTime (snd (resume t j s v)) = t \<and>
      effects (snd (resume t j s v)) = effects v' @ [Hook_error e] \<and>
      lastSuccessfulWarmingTime (snd (resume t j s v)) = lastSuccessfulWarmingTime v' \<and>
      ((\<forall>q'. s = Resolved_json q' \<longrightarrow> status q' \<noteq> ''succeeded'') \<longrightarrow>
         lastSuccessfulWarmingTime v' = lastSuccessfulWarmingTime v)) \<and>
   (\<not> isWarming u \<longrightarrow> onWarmingStart (config u) () = None \<longrightarrow> dummyImage u = Inl e0 \<longrightarrow>
      lastWarmingTime (snd (warmReplicateAPI t u)) = t \<and>
      effects (snd (warmReplicateAPI t u)) = effects u @ [Hook_start, Hook_error e0] \<and>
      lastSuccessfulWarmingTime (snd (warmReplicateAPI t u)) = lastSuccessfulWarmingTime u)"
proof (intro conjI impI)
  assume k: "k = Await_create_json \<or> k = Await_status_json p" and q: "status q = ''succeeded''"
  from resume_json[OF k, of now q w] obtain p'
    where "resume now k (Resolved_json q) w = try_catch_finally now (poll_loop now p' q w)" ..
  then show "let w' = snd (resume now k (Resolved_json q) w)
          in lastWarmingTime w' = now \<and> lastSuccessfulWarmingTime w' = now \<and>
             effects w' = effects w @ Hook_complete #
               (case onWarmingComplete (config w) () of None \<Rightarrow> [] | Some e \<Rightarrow> [Hook_error e])"
    by (simp add: terminal_succeeded[OF q])
next
  assume k: "k = Await_create_json \<or> k = Await_status_json p" and q: "status q = ''failed''"
  from resume_json[OF k, of now q w] obtain p'
    where "resume now k (Resolved_json q) w = try_catch_finally now (poll_loop now p' q w)" ..
  then show "let w' = snd (resume now k (Resolved_json q) w);
              err = Error (''Warming prediction failed: '' @ error_or_unknown q)
          in lastWarmingTime w' = now \<and>
             lastSuccessfulWarmingTime w' = lastSuccessfulWarmingTime w \<and>
             effects w' = effects w @ Hook_error err #
               (case onWarmingError (config w) err of None \<Rightarrow> [] | Some e \<Rightarrow> [Hook_error e])"
    by (simp add: terminal_failed[OF q])
next
  assume b: "resume_body t j s v = (Thrown e, v')"
  then have r: "snd (resume t j s v) =
      v'\<lparr>lastWarmingTime := t, effects := effects v' @ [Hook_error e], isWarming := False\<rparr>"
    by (simp add: resume_def try_catch_finally_thrown)
  show "lastWarmingTime (snd (resume t j s v)) = t" by (simp add: r)
  show "effects (snd (resume t j s v)) = effects v' @ [Hook_error e]" by (simp add: r)
  show "lastSuccessfulWarmingTime (snd (resume t j s v)) = lastSuccessfulWarmingTime v'"
    by (simp add: r)
next
  assume b: "resume_body t j s v = (Thrown e, v')"
    and n: "\<forall>q'. s = Resolved_json q' \<longrightarrow> status q' \<noteq> ''succeeded''"
  from resume_body_lastSuccessful[OF n, of t j v] b
  show "lastSuccessfulWarmingTime v' = lastSuccessfulWarmingTime v" by simp
next
  assume a: "\<not> isWarming u" "onWarmingStart (config u) () = None" "dummyImage u = Inl e0"
  then have w: "warmReplicateAPI t u =
      try_catch_finally t (Thrown e0, emit Hook_start (u\<lparr>isWarming := True\<rparr>))"
    by (simp add: warmReplicateAPI_def create_request_def Let_def)
  show "lastWarmingTime (snd (warmReplicateAPI t u)) = t"
    by (simp add: w try_catch_finally_thrown)
  show "effects (snd (warmReplicateAPI t u)) = effects u @ [Hook_start, Hook_error e0]"
    by (simp add: w try_catch_finally_thrown)
  show "lastSuccessfulWarmingTime (snd (warmReplicateAPI t u)) = lastSuccessfulWarmingTime u"
    by (simp add: w try_catch_finally_thrown)
qed

theorem terminal_state_bookkeeping_witness:
  "lastWarmingTime (snd (resume 20110 Await_create_json
       (Resolved_json (prediction_with ''succeeded'' None)) suspended_page)) = 20110 \<and>
   lastSuccessfulWarmingTime (snd (resume 20110 Await_create_json
       (Resolved_json (prediction_with ''succeeded'' None)) suspended_page)) = 20110 \<and>
   effects (snd (resume 20110 Await_create_json
       (Resolved_json (prediction_with ''succeeded'' None)) suspended_page))
     = effects suspended_page @ [Hook_complete] \<and>
   lastWarmingTime (snd (resume 22210 (Await_status_json (prediction_with ''starting'' None))
       (Resolved_json (prediction_with ''failed'' (Some ''out of memory''))) suspended_page)) = 22210 \<and>
   lastSuccessfulWarmingTime (snd (resume 22210 (Await_status_json (prediction_with ''starting'' None))
       (Resolved_json (prediction_with ''failed'' (Some ''out of memory''))) suspended_page)) = 0 \<and>
   effects (snd (resume 22210 (Await_status_json (prediction_with ''starting'' None))
       (Resolved_json (prediction_with ''failed'' (Some ''out of memory''))) suspended_page))
     = effects suspended_page @ [Hook_error (Error ''Warming prediction failed: out of memory'')] \<and>
   resume_body 22200 (Await_status (prediction_with ''starting'' None))
       (Resolved_response response_500) suspended_page
     = (Thrown (Error ''Failed to check warming prediction status''), suspended_page) \<and>
   lastWarmingTime (snd (resume 22200 (Await_status (prediction_with ''starting'' None))
       (Resolved_response response_500) suspended_page)) = 22200 \<and>
   lastSuccessfulWarmingTime (snd (resume 22200 (Await_status (prediction_with ''starting'' None))
       (Resolved_response response_500) suspended_page)) = 0 \<and>
   lastWarmingTime (snd (warmReplicateAPI 20000 (new_page no_options (Inl (Error ''no canvas''))))) = 20000"
proof -
  let ?ok = "prediction_with ''succeeded'' None"
  let ?ko = "prediction_with ''failed'' (Some ''out of memory'')"
  let ?p = "prediction_with ''starting'' None"
  let ?u = "new_page no_options (Inl (Error ''no canvas''))"
  have s1: "status ?ok = ''succeeded''" by (simp add: prediction_with_def)
  have s2: "status ?ko = ''failed''" by (simp add: prediction_with_def)
  have m: "error_or_unknown ?ko = ''out of memory''"
    by (simp add: error_or_unknown_def prediction_with_def)
  have c: "config suspended_page = config (new_page no_options sample_image)"
    "lastSuccessfulWarmingTime suspended_page = 0"
    by (simp_all add: eval_defs)
  have h: "onWarmingComplete (config suspended_page) () = None"
    "onWarmingError (config suspended_page) (Error ''Warming prediction failed: out of memory'') = None"
    by (simp_all add: c eval_defs)
  have b: "resume_body 22200 (Await_status ?p) (Resolved_response response_500) suspended_page
     = (Thrown (Error ''Failed to check warming prediction status''), suspended_page)"
    by (simp add: response_500_def)
  have n: "\<forall>q'. Resolved_response response_500 = Resolved_json q' \<longrightarrow> status q' \<noteq> ''succeeded''"
    by simp
  have u: "\<not> isWarming ?u" "onWarmingStart (config ?u) () = None" "dummyImage ?u = Inl (Error ''no canvas'')"
    by (simp_all add: eval_defs)
  note t1 = terminal_state_bookkeeping[of Await_create_json _ ?ok 20110 suspended_page]
  note t2 = terminal_state_bookkeeping[of "Await_status_json ?p" ?p ?ko 22210 suspended_page]
  note t3 = terminal_state_bookkeeping[of _ _ _ _ _ 22200 "Await_status ?p"
      "Resolved_response response_500" suspended_page
      "Error ''Failed to check warming prediction status''" suspended_page]
  note t4 = terminal_state_bookkeeping[of _ _ _ _ _ 20000 _ _ _ _ _ ?u "Error ''no canvas''"]
  from t1 s1 h(1) have 1:
    "lastWarmingTime (snd (resume 20110 Await_create_json (Resolved_json ?ok) suspended_page)) = 20110"
    "lastSuccessfulWarmingTime (snd (resume 20110 Await_create_json (Resolved_json ?ok) suspended_page)) = 20110"
    "effects (snd (resume 20110 Await_create_json (Resolved_json ?ok) suspended_page))
       = effects suspended_page @ [Hook_complete]"
    by (simp_all add: Let_def)
  from t2 s2 h(2) m c(2) have 2:
    "lastWarmingTime (snd (resume 22210 (Await_status_json ?p) (Resolved_json ?ko) suspended_page)) = 22210"
    "lastSuccessfulWarmingTime (snd (resume 22210 (Await_status_json ?p) (Resolved_json ?ko) suspended_page)) = 0"
    "effects (snd (resume 22210 (Await_status_json ?p) (Resolved_json ?ko) suspended_page))
       = effects suspended_page @ [Hook_error (Error ''Warming prediction failed: out of memory'')]"
    by (simp_all add: Let_def)
  from t3 b n c(2) have 3:
    "lastWarmingTime (snd (resume 22200 (Await_status ?p) (Resolved_response response_500) suspended_page)) = 22200"
    "lastSuccessfulWarmingTime (snd (resume 22200 (Await_status ?p) (Resolved_response response_500) suspended_page)) = 0"
    by simp_all
  from t4 u have 4: "lastWarmingTime (snd (warmReplicateAPI 20000 ?u)) = 20000" by blast
  from 1 2 b 3 4 show ?thesis by blast
qed

text \<open>
  Claim C6 as stated fails for a failure raised by the \<open>onWarmingComplete\<close> hook: line
  154 has set \<open>lastSuccessfulWarmingTime\<close> before line 155 calls the hook.
\<close>

theorem complete_hook_throws_counterexample:
  "lastSuccessfulWarmingTime (new_page complete_hook_throws sample_image) = 0 \<and>
   run_cycle [(20100, Resolved_response response_200),
              (20110, Resolved_json (prediction_with ''succeeded'' None))]
     (warmReplicateAPI 20000 (new_page complete_hook_throws sample_image)) =
     (Fulfilled,
      (new_page complete_hook_throws sample_image)
        \<lparr>lastWarmingTime := 20110,
          lastSuccessfulWarmingTime := 20110,
          effects := [Hook_start,
                     Post_warm ''data:image/jpeg;base64,AAAA'' ''/gifs/thumbs_up.gif'',
                     Hook_complete,
                     Hook_error (Error ''hook failed'')]\<rparr>)"
  by (simp add: eval_defs)

end
